theory Spec2Isabelle
  imports Main "HOL-Library.Char_ord" "HOL-Library.List_Lexorder"
begin

section \<open>Python values and exceptions\<close>

text \<open>
  The embedding follows \<^verbatim>\<open>execution/ortools-api/api.py\<close>. An exception raised by
  the Python code is a value on the left of a sum; only the exception class is kept, not
  its message. A string is a list of code points below 256, ordered as Python orders
  \<^verbatim>\<open>str\<close> (lexicographically by code point, a proper prefix first).
\<close>

datatype pyerr = KeyError | ValueError | TypeError | IndexError | AttributeError

type_synonym 'a py = "pyerr + 'a"

definition ebind :: "'a py \<Rightarrow> ('a \<Rightarrow> 'b py) \<Rightarrow> 'b py" where
  "ebind m f = (case m of Inl e \<Rightarrow> Inl e | Inr v \<Rightarrow> f v)"

text \<open>\<^verbatim>\<open>d[k]\<close> on a dictionary: the value, or KeyError when the key is absent.\<close>

definition subscript :: "'a option \<Rightarrow> 'a py" where
  "subscript v = (case v of None \<Rightarrow> Inl KeyError | Some a \<Rightarrow> Inr a)"

text \<open>A loop whose body may raise: the first exception ends it.\<close>

fun traverse :: "('a \<Rightarrow> 'b py) \<Rightarrow> 'a list \<Rightarrow> ('b list) py" where
  "traverse f [] = Inr []"
| "traverse f (a # as) =
     (case f a of Inl e \<Rightarrow> Inl e
      | Inr b \<Rightarrow> (case traverse f as of Inl e \<Rightarrow> Inl e | Inr bs \<Rightarrow> Inr (b # bs)))"

subsection \<open>int() on a string\<close>

text \<open>
  \<^verbatim>\<open>int(s)\<close> in base ten. A string that holds a code point above 127 is first
  rewritten: the spaces U+0085 and U+00A0 become a blank, and at the first other code point
  from 127 on the string is cut and ends in a question mark (the Latin-1 range has no
  decimal digit but 0 to 9). Then blanks (code points 9 to 13 and 32) are skipped at both
  ends, one sign is read, and the rest must be decimal digits, with single underscores
  allowed between two digits and at most 4300 digits. Anything else raises ValueError.
\<close>

definition is_digit :: "char \<Rightarrow> bool" where
  "is_digit c = (48 \<le> (of_char c :: nat) \<and> (of_char c :: nat) \<le> 57)"

definition digit_val :: "char \<Rightarrow> nat" where
  "digit_val c = of_char c - 48"

definition is_space :: "char \<Rightarrow> bool" where
  "is_space c = ((of_char c :: nat) \<in> {9, 10, 11, 12, 13, 32})"

fun transform :: "string \<Rightarrow> string" where
  "transform [] = []"
| "transform (c # cs) =
     (if (of_char c :: nat) < 127 then c # transform cs
      else if (of_char c :: nat) = 133 \<or> (of_char c :: nat) = 160 then CHR '' '' # transform cs
      else [CHR ''?''])"

definition to_ascii :: "string \<Rightarrow> string" where
  "to_ascii s = (if list_all (\<lambda>c. (of_char c :: nat) < 128) s then s else transform s)"

definition py_strip :: "string \<Rightarrow> string" where
  "py_strip s = rev (dropWhile is_space (rev (dropWhile is_space s)))"

text \<open>Decimal digits, with single underscores allowed between two digits.\<close>

fun digits_nat :: "nat \<Rightarrow> string \<Rightarrow> nat option" where
  "digits_nat acc [] = Some acc"
| "digits_nat acc (c # cs) =
     (if is_digit c then digits_nat (10 * acc + digit_val c) cs
      else if c = CHR ''_'' \<and> cs \<noteq> [] \<and> is_digit (hd cs) then digits_nat acc cs
      else None)"

definition py_int_body :: "string \<Rightarrow> nat option" where
  "py_int_body s = (case s of [] \<Rightarrow> None
                    | c # cs \<Rightarrow> if is_digit c \<and> length (filter is_digit s) \<le> 4300
                                then digits_nat 0 s else None)"

definition py_int_str :: "string \<Rightarrow> int py" where
  "py_int_str s =
     (case py_strip (to_ascii s) of
        [] \<Rightarrow> Inl ValueError
      | c # cs \<Rightarrow>
          if c = CHR ''-'' then
            (case py_int_body cs of None \<Rightarrow> Inl ValueError | Some n \<Rightarrow> Inr (- int n))
          else if c = CHR ''+'' then
            (case py_int_body cs of None \<Rightarrow> Inl ValueError | Some n \<Rightarrow> Inr (int n))
          else
            (case py_int_body (c # cs) of None \<Rightarrow> Inl ValueError | Some n \<Rightarrow> Inr (int n)))"

text \<open>\<^verbatim>\<open>s.split(":")\<close>: the pieces between the colons, at least one piece.\<close>

fun split_colon :: "string \<Rightarrow> string list" where
  "split_colon [] = [[]]"
| "split_colon (c # cs) =
     (if c = CHR '':'' then [] # split_colon cs
      else (case split_colon cs of [] \<Rightarrow> [[c]] | p # ps \<Rightarrow> (c # p) # ps))"

section \<open>Time and shift helpers\<close>

record shift_def =
  sd_start :: "string option"
  sd_end :: "string option"
  sd_minutes :: "int option"
  sd_is_work :: "bool option"

text \<open>\<^verbatim>\<open>hh, mm = hhmm.split(":")\<close> raises ValueError unless there are exactly two pieces.\<close>

definition parse_hhmm :: "string \<Rightarrow> int py" where
  "parse_hhmm hhmm =
     (case split_colon hhmm of
        [hh, mm] \<Rightarrow>
          ebind (py_int_str hh) (\<lambda>h. ebind (py_int_str mm) (\<lambda>m. Inr (h * 60 + m)))
      | _ \<Rightarrow> Inl ValueError)"

definition shift_interval_minutes :: "shift_def \<Rightarrow> (int \<times> int \<times> int) py" where
  "shift_interval_minutes sd =
     ebind (subscript (sd_start sd)) (\<lambda>s0.
     ebind (parse_hhmm s0) (\<lambda>start.
     ebind (subscript (sd_end sd)) (\<lambda>e0.
     ebind (parse_hhmm e0) (\<lambda>fin.
       let dur = (case sd_minutes sd of None \<Rightarrow> 0 | Some m \<Rightarrow> m);
           dur' = (if dur = 0 \<and> (case sd_is_work sd of None \<Rightarrow> True | Some w \<Rightarrow> w)
                   then (if fin \<ge> start then fin - start else (24 * 60 - start) + fin)
                   else dur)
       in Inr (start, fin, dur')))))"

definition rest_minutes_between :: "shift_def \<Rightarrow> shift_def \<Rightarrow> int py" where
  "rest_minutes_between shift_a shift_b =
     ebind (shift_interval_minutes shift_a) (\<lambda>_.
     ebind (shift_interval_minutes shift_b) (\<lambda>_.
     ebind (subscript (sd_end shift_a)) (\<lambda>ae.
     ebind (parse_hhmm ae) (\<lambda>a_end.
     ebind (subscript (sd_start shift_a)) (\<lambda>as.
     ebind (parse_hhmm as) (\<lambda>a_start.
       let a_end_abs = (if a_end \<ge> a_start then a_end else 24 * 60 + a_end) in
       ebind (subscript (sd_start shift_b)) (\<lambda>bs.
       ebind (parse_hhmm bs) (\<lambda>b_start.
         Inr ((24 * 60 + b_start) - a_end_abs)))))))))"

text \<open>
  The format check of the validator (\<^verbatim>\<open>_is_hhmm\<close>) on a string: length five, a colon
  in the middle, both pieces all digits, hours at most 23 and minutes at most 59. The
  unpacking of the split raises ValueError when the string holds a second colon.
\<close>

definition isdigit :: "string \<Rightarrow> bool" where
  "isdigit s = (s \<noteq> [] \<and> list_all is_digit s)"

definition is_hhmm_str :: "string \<Rightarrow> bool py" where
  "is_hhmm_str v =
     (if length v \<noteq> 5 \<or> v ! 2 \<noteq> CHR '':'' then Inr False
      else (case split_colon v of
              [hh, mm] \<Rightarrow>
                if isdigit hh \<and> isdigit mm then
                  ebind (py_int_str hh) (\<lambda>h.
                    if 0 \<le> h \<and> h \<le> 23 then
                      ebind (py_int_str mm) (\<lambda>m. Inr (0 \<le> m \<and> m \<le> 59))
                    else Inr False)
                else Inr False
            | _ \<Rightarrow> Inl ValueError))"

text \<open>The reading 60*HH+MM of a five-character time, digit by digit.\<close>

definition hhmm_minutes :: "string \<Rightarrow> int" where
  "hhmm_minutes v =
     60 * (10 * int (digit_val (v ! 0)) + int (digit_val (v ! 1)))
       + (10 * int (digit_val (v ! 3)) + int (digit_val (v ! 4)))"

definition valid_times :: "shift_def \<Rightarrow> bool" where
  "valid_times sd =
     (case (sd_start sd, sd_end sd) of
        (Some s, Some e) \<Rightarrow> is_hhmm_str s = Inr True \<and> is_hhmm_str e = Inr True
      | _ \<Rightarrow> False)"

definition start_of :: "shift_def \<Rightarrow> int" where
  "start_of sd = hhmm_minutes (the (sd_start sd))"

definition end_of :: "shift_def \<Rightarrow> int" where
  "end_of sd = hhmm_minutes (the (sd_end sd))"

text \<open>A shift definition that gives only its two times.\<close>

definition shift_of_times :: "string \<Rightarrow> string \<Rightarrow> shift_def" where
  "shift_of_times s e = \<lparr>sd_start = Some s, sd_end = Some e, sd_minutes = None, sd_is_work = None\<rparr>"

section \<open>The specification tree\<close>

text \<open>
  The parsed specification, typed as the code's annotations and the data model give it:
  identifiers are strings, quantities are integers. A key that the code reads with
  \<^verbatim>\<open>.get\<close> or with \<^verbatim>\<open>[...]\<close> and that may be missing is an
  \<open>option\<close>; \<^verbatim>\<open>sets.employees\<close>, \<^verbatim>\<open>sets.days\<close> and
  \<^verbatim>\<open>sets.shifts\<close> are always there. Dictionaries are association lists read
  with \<open>map_of\<close>.
\<close>

record contract =
  ct_type :: "string option"

record employee =
  emp_skills :: "string list option"
  emp_roles :: "string list option"
  emp_site_home :: "string option"
  emp_contract :: "contract option"

text \<open>\<^verbatim>\<open>scope.employees\<close> is the string "ALL" or a list of ids.\<close>

datatype emp_sel = All_emps | Emp_list "string list"

text \<open>A filter value is a single tag or a list of tags (\<^verbatim>\<open>normalize_list\<close>).\<close>

datatype strs = One string | Many "string list"

record scope =
  sc_employees :: "emp_sel option"
  sc_groups :: "strs option"
  sc_skills_any :: "strs option"
  sc_skills_all :: "strs option"
  sc_roles_any :: "strs option"
  sc_roles_all :: "strs option"
  sc_sites_any :: "strs option"
  sc_contracts_any :: "strs option"

record floor_req =
  fr_tag :: "string option"
  fr_min :: "int option"

record requirements =
  rq_skills_min :: "floor_req list option"
  rq_roles_min :: "floor_req list option"

record demand =
  dm_day :: "string option"
  dm_shift :: "string option"
  dm_site :: "string option"
  dm_eq :: "int option"
  dm_min :: "int option"
  dm_max :: "int option"
  dm_requirements :: "requirements option"

record shift_pair =
  fp_prev_shift :: "string option"
  fp_next_shift :: "string option"

datatype target = Target_str string | Target_int int

record cdata =
  cd_shifts :: "string list option"
  cd_forbidden_pairs :: "shift_pair list option"
  cd_min_rest_minutes :: "int option"
  cd_window_days :: "int option"
  cd_max :: "int option"
  cd_max_minutes :: "int option"
  cd_mode :: "string option"
  cd_min :: "int option"
  cd_days :: "string list option"
  cd_working_shifts :: "string list option"
  cd_measure :: "string option"
  cd_penalize :: "string option"
  cd_target :: "target option"

record penalty =
  pn_weight :: "int option"

record cons =
  c_id :: "string option"
  c_type :: "string option"
  c_kind :: "string option"
  c_scope :: "scope option"
  c_data :: "cdata option"
  c_penalty :: "penalty option"

record sets =
  s_employees :: "string list"
  s_days :: "string list"
  s_shifts :: "string list"
  s_sites :: "string list option"

record spec =
  sp_sets :: sets
  sp_shifts :: "(string \<times> shift_def) list option"
  sp_employees :: "(string \<times> employee) list option"
  sp_groups :: "(string \<times> string list) list option"
  sp_demand :: "demand list option"
  sp_constraints :: "cons list option"

text \<open>The empty dictionaries that \<^verbatim>\<open>.get(key, {})\<close> falls back to.\<close>

definition no_employee :: employee where
  "no_employee = \<lparr>emp_skills = None, emp_roles = None, emp_site_home = None, emp_contract = None\<rparr>"

definition no_scope :: scope where
  "no_scope = \<lparr>sc_employees = None, sc_groups = None, sc_skills_any = None,
     sc_skills_all = None, sc_roles_any = None, sc_roles_all = None, sc_sites_any = None,
     sc_contracts_any = None\<rparr>"

definition no_data :: cdata where
  "no_data = \<lparr>cd_shifts = None, cd_forbidden_pairs = None, cd_min_rest_minutes = None,
     cd_window_days = None, cd_max = None, cd_max_minutes = None, cd_mode = None,
     cd_min = None, cd_days = None, cd_working_shifts = None, cd_measure = None,
     cd_penalize = None, cd_target = None\<rparr>"

definition no_requirements :: requirements where
  "no_requirements = \<lparr>rq_skills_min = None, rq_roles_min = None\<rparr>"

text \<open>\<^verbatim>\<open>d.get(key, default)\<close>.\<close>

definition get_or :: "'a option \<Rightarrow> 'a \<Rightarrow> 'a" where
  "get_or v d = (case v of None \<Rightarrow> d | Some a \<Rightarrow> a)"

section \<open>Scope selection\<close>

definition get_employee :: "spec \<Rightarrow> string \<Rightarrow> employee" where
  "get_employee spec emp_id = get_or (map_of (get_or (sp_employees spec) []) emp_id) no_employee"

definition get_groups :: "spec \<Rightarrow> (string \<times> string list) list" where
  "get_groups spec = get_or (sp_groups spec) []"

definition normalize_list :: "strs option \<Rightarrow> string list" where
  "normalize_list v = (case v of None \<Rightarrow> [] | Some (Many l) \<Rightarrow> l | Some (One a) \<Rightarrow> [a])"

text \<open>The start set: all employees unless the scope lists employees explicitly.\<close>

definition start_set :: "spec \<Rightarrow> scope \<Rightarrow> string set" where
  "start_set spec scope =
     (case sc_employees scope of
        None \<Rightarrow> set (s_employees (sp_sets spec))
      | Some All_emps \<Rightarrow> set (s_employees (sp_sets spec))
      | Some (Emp_list l) \<Rightarrow> set l)"

text \<open>One \<^verbatim>\<open>selected &= set(groups.get(g, []))\<close> per group name.\<close>

definition filter_groups :: "(string \<times> string list) list \<Rightarrow> string list \<Rightarrow> string set \<Rightarrow> string set" where
  "filter_groups groups gs selected = fold (\<lambda>g sel. sel \<inter> set (get_or (map_of groups g) [])) gs selected"

text \<open>\<^verbatim>\<open>if tags: selected &= {e for e in selected if tags.intersection(attr(e))}\<close>.\<close>

definition filter_any :: "string list \<Rightarrow> (string \<Rightarrow> string list) \<Rightarrow> string set \<Rightarrow> string set" where
  "filter_any tags attr selected =
     (if set tags \<noteq> {} then selected \<inter> {e \<in> selected. set tags \<inter> set (attr e) \<noteq> {}}
      else selected)"

text \<open>\<^verbatim>\<open>if tags: selected &= {e for e in selected if tags.issubset(attr(e))}\<close>.\<close>

definition filter_all :: "string list \<Rightarrow> (string \<Rightarrow> string list) \<Rightarrow> string set \<Rightarrow> string set" where
  "filter_all tags attr selected =
     (if set tags \<noteq> {} then selected \<inter> {e \<in> selected. set tags \<subseteq> set (attr e)}
      else selected)"

text \<open>\<^verbatim>\<open>if tags: selected &= {e for e in selected if attr(e) in tags}\<close>; a missing
  attribute is None, which is in no set of strings.\<close>

definition filter_in :: "string list \<Rightarrow> (string \<Rightarrow> string option) \<Rightarrow> string set \<Rightarrow> string set" where
  "filter_in tags attr selected =
     (if set tags \<noteq> {}
      then selected \<inter> {e \<in> selected. (case attr e of None \<Rightarrow> False | Some a \<Rightarrow> a \<in> set tags)}
      else selected)"

definition contract_type :: "spec \<Rightarrow> string \<Rightarrow> string option" where
  "contract_type spec eid =
     (case emp_contract (get_employee spec eid) of None \<Rightarrow> None | Some ct \<Rightarrow> ct_type ct)"

definition select_employees_by_scope :: "spec \<Rightarrow> scope \<Rightarrow> string list" where
  "select_employees_by_scope spec scope =
     (let groups = get_groups spec;
          selected = start_set spec scope;
          selected = filter_groups groups (normalize_list (sc_groups scope)) selected;
          selected = filter_any (normalize_list (sc_skills_any scope))
                       (\<lambda>e. get_or (emp_skills (get_employee spec e)) []) selected;
          selected = filter_all (normalize_list (sc_skills_all scope))
                       (\<lambda>e. get_or (emp_skills (get_employee spec e)) []) selected;
          selected = filter_any (normalize_list (sc_roles_any scope))
                       (\<lambda>e. get_or (emp_roles (get_employee spec e)) []) selected;
          selected = filter_all (normalize_list (sc_roles_all scope))
                       (\<lambda>e. get_or (emp_roles (get_employee spec e)) []) selected;
          selected = filter_in (normalize_list (sc_sites_any scope))
                       (\<lambda>e. emp_site_home (get_employee spec e)) selected;
          selected = filter_in (normalize_list (sc_contracts_any scope))
                       (contract_type spec) selected
      in sorted_list_of_set selected)"

text \<open>A filter is absent, or present as the empty list.\<close>

definition absent_or_empty :: "strs option \<Rightarrow> bool" where
  "absent_or_empty v = (v = None \<or> v = Some (Many []))"

text \<open>A small specification used to run the definitions on concrete input.\<close>

definition demo_spec :: spec where
  "demo_spec = \<lparr>sp_sets = \<lparr>s_employees = [''P2'', ''P1'', ''P3''], s_days = [''D1'', ''D2''],
       s_shifts = [''OFF'', ''M'', ''N''], s_sites = None\<rparr>,
     sp_shifts = Some [(''M'', \<lparr>sd_start = Some ''08:00'', sd_end = Some ''16:00'', sd_minutes = Some 480, sd_is_work = None\<rparr>),
                       (''N'', \<lparr>sd_start = Some ''22:00'', sd_end = Some ''06:00'', sd_minutes = Some 480, sd_is_work = None\<rparr>)],
     sp_employees = Some [(''P1'', \<lparr>emp_skills = Some [''certified''], emp_roles = None, emp_site_home = None, emp_contract = None\<rparr>)],
     sp_groups = None, sp_demand = None, sp_constraints = None\<rparr>"

subsection \<open>Iteration order and the filters of a scope\<close>

text \<open>
  Python fixes no order in which a set yields its elements: the hashes of strings are
  seeded anew in every process. An iteration order gives, for every finite set, its
  elements as a list without repetition.
\<close>

definition iteration_order :: "(string set \<Rightarrow> string list) \<Rightarrow> bool" where
  "iteration_order it = (\<forall>S. finite S \<longrightarrow> set (it S) = S \<and> distinct (it S))"

text \<open>\<^verbatim>\<open>{e for e in selected if cond(e)}\<close>, reading \<open>selected\<close> in the order \<open>it\<close>.\<close>

definition comprehension :: "(string set \<Rightarrow> string list) \<Rightarrow> (string \<Rightarrow> bool) \<Rightarrow> string set \<Rightarrow> string set" where
  "comprehension it cond selected = set (filter cond (it selected))"

definition filter_any_iter ::
  "(string set \<Rightarrow> string list) \<Rightarrow> string list \<Rightarrow> (string \<Rightarrow> string list) \<Rightarrow> string set \<Rightarrow> string set" where
  "filter_any_iter it tags attr selected =
     (if set tags \<noteq> {}
      then selected \<inter> comprehension it (\<lambda>e. set tags \<inter> set (attr e) \<noteq> {}) selected
      else selected)"

definition filter_all_iter ::
  "(string set \<Rightarrow> string list) \<Rightarrow> string list \<Rightarrow> (string \<Rightarrow> string list) \<Rightarrow> string set \<Rightarrow> string set" where
  "filter_all_iter it tags attr selected =
     (if set tags \<noteq> {}
      then selected \<inter> comprehension it (\<lambda>e. set tags \<subseteq> set (attr e)) selected
      else selected)"

definition filter_in_iter ::
  "(string set \<Rightarrow> string list) \<Rightarrow> string list \<Rightarrow> (string \<Rightarrow> string option) \<Rightarrow> string set \<Rightarrow> string set" where
  "filter_in_iter it tags attr selected =
     (if set tags \<noteq> {}
      then selected \<inter> comprehension it
             (\<lambda>e. case attr e of None \<Rightarrow> False | Some a \<Rightarrow> a \<in> set tags) selected
      else selected)"

text \<open>
  \<^verbatim>\<open>select_employees_by_scope\<close> with the iteration order of its sets as a parameter:
  the set comprehensions and the final \<^verbatim>\<open>sorted(selected)\<close> read the set in that
  order.
\<close>

definition select_employees_by_scope_iter ::
  "(string set \<Rightarrow> string list) \<Rightarrow> spec \<Rightarrow> scope \<Rightarrow> string list" where
  "select_employees_by_scope_iter it spec scope =
     (let groups = get_groups spec;
          selected = start_set spec scope;
          selected = filter_groups groups (normalize_list (sc_groups scope)) selected;
          selected = filter_any_iter it (normalize_list (sc_skills_any scope))
                       (\<lambda>e. get_or (emp_skills (get_employee spec e)) []) selected;
          selected = filter_all_iter it (normalize_list (sc_skills_all scope))
                       (\<lambda>e. get_or (emp_skills (get_employee spec e)) []) selected;
          selected = filter_any_iter it (normalize_list (sc_roles_any scope))
                       (\<lambda>e. get_or (emp_roles (get_employee spec e)) []) selected;
          selected = filter_all_iter it (normalize_list (sc_roles_all scope))
                       (\<lambda>e. get_or (emp_roles (get_employee spec e)) []) selected;
          selected = filter_in_iter it (normalize_list (sc_sites_any scope))
                       (\<lambda>e. emp_site_home (get_employee spec e)) selected;
          selected = filter_in_iter it (normalize_list (sc_contracts_any scope))
                       (contract_type spec) selected
      in sort (it selected))"

text \<open>The seven filters of a scope, the value a scope gives to each, and the condition
  that the step of each filter puts on an employee.\<close>

datatype filter_name =
  Groups | Skills_any | Skills_all | Roles_any | Roles_all | Sites_any | Contracts_any

definition all_filters :: "filter_name list" where
  "all_filters = [Groups, Skills_any, Skills_all, Roles_any, Roles_all, Sites_any, Contracts_any]"

definition filter_value :: "scope \<Rightarrow> filter_name \<Rightarrow> strs option" where
  "filter_value scope f =
     (case f of
        Groups \<Rightarrow> sc_groups scope
      | Skills_any \<Rightarrow> sc_skills_any scope
      | Skills_all \<Rightarrow> sc_skills_all scope
      | Roles_any \<Rightarrow> sc_roles_any scope
      | Roles_all \<Rightarrow> sc_roles_all scope
      | Sites_any \<Rightarrow> sc_sites_any scope
      | Contracts_any \<Rightarrow> sc_contracts_any scope)"

definition meets :: "spec \<Rightarrow> scope \<Rightarrow> filter_name \<Rightarrow> string \<Rightarrow> bool" where
  "meets spec scope f e =
     (let tags = normalize_list (filter_value scope f) in
      case f of
        Groups \<Rightarrow> list_all (\<lambda>g. e \<in> set (get_or (map_of (get_groups spec) g) [])) tags
      | Skills_any \<Rightarrow> set tags \<inter> set (get_or (emp_skills (get_employee spec e)) []) \<noteq> {}
      | Skills_all \<Rightarrow> set tags \<subseteq> set (get_or (emp_skills (get_employee spec e)) [])
      | Roles_any \<Rightarrow> set tags \<inter> set (get_or (emp_roles (get_employee spec e)) []) \<noteq> {}
      | Roles_all \<Rightarrow> set tags \<subseteq> set (get_or (emp_roles (get_employee spec e)) [])
      | Sites_any \<Rightarrow>
          (case emp_site_home (get_employee spec e) of None \<Rightarrow> False | Some a \<Rightarrow> a \<in> set tags)
      | Contracts_any \<Rightarrow>
          (case contract_type spec e of None \<Rightarrow> False | Some a \<Rightarrow> a \<in> set tags))"

text \<open>Three employees, two of them certified; a scope that asks for the skill and gives
  an empty list of groups; and the iteration order that yields a set in descending
  order.\<close>

definition skilled_spec :: spec where
  "skilled_spec = \<lparr>sp_sets = \<lparr>s_employees = [''P3'', ''P2'', ''P1''], s_days = [''D1''],
       s_shifts = [''OFF'', ''M''], s_sites = None\<rparr>,
     sp_shifts = None,
     sp_employees = Some [
       (''P1'', \<lparr>emp_skills = Some [''certified''], emp_roles = None, emp_site_home = None, emp_contract = None\<rparr>),
       (''P3'', \<lparr>emp_skills = Some [''driver'', ''certified''], emp_roles = None, emp_site_home = None, emp_contract = None\<rparr>)],
     sp_groups = None, sp_demand = None, sp_constraints = None\<rparr>"

definition certified_scope :: scope where
  "certified_scope = no_scope\<lparr>sc_groups := Some (Many []), sc_skills_any := Some (One ''certified'')\<rparr>"

definition descending :: "string set \<Rightarrow> string list" where
  "descending S = rev (sorted_list_of_set S)"

section \<open>The constraint model handed to the solver\<close>

text \<open>
  A decision variable is named by the dictionary key under which the compiler stores it:
  \<open>X e d s site\<close> is \<^verbatim>\<open>x[(e, d, s, site)]\<close> and \<open>Off e d\<close> is
  \<^verbatim>\<open>off[(e, d)]\<close>. An auxiliary variable is named by the position of the
  constraint that creates it, its purpose, the employee and the position in the
  constraint's inner loop, so that two creations never share a name.
\<close>

datatype var = X string nat string string | Off string nat | Aux nat string string nat

text \<open>A linear expression: weighted variables and a constant.\<close>

type_synonym linexpr = "(int \<times> var) list \<times> int"

definition lconst :: "int \<Rightarrow> linexpr" where
  "lconst k = ([], k)"

definition lvar :: "var \<Rightarrow> linexpr" where
  "lvar v = ([(1, v)], 0)"

definition ladd :: "linexpr \<Rightarrow> linexpr \<Rightarrow> linexpr" where
  "ladd a b = (fst a @ fst b, snd a + snd b)"

definition lscale :: "int \<Rightarrow> linexpr \<Rightarrow> linexpr" where
  "lscale k a = (map (\<lambda>(c, v). (k * c, v)) (fst a), k * snd a)"

definition lsub :: "linexpr \<Rightarrow> linexpr \<Rightarrow> linexpr" where
  "lsub a b = ladd a (lscale (- 1) b)"

text \<open>\<^verbatim>\<open>sum(...)\<close> of expressions, starting from 0.\<close>

definition lsum :: "linexpr list \<Rightarrow> linexpr" where
  "lsum es = foldl ladd (lconst 0) es"

definition leval :: "(var \<Rightarrow> int) \<Rightarrow> linexpr \<Rightarrow> int" where
  "leval a e = sum_list (map (\<lambda>(c, v). c * a v) (fst e)) + snd e"

datatype rel = REq | RLe | RGe

text \<open>A constraint row; \<open>row_guard\<close> is the literal of \<^verbatim>\<open>OnlyEnforceIf\<close>.\<close>

record row =
  row_lhs :: linexpr
  row_rel :: rel
  row_rhs :: linexpr
  row_guard :: "var option"

definition mk_row :: "linexpr \<Rightarrow> rel \<Rightarrow> linexpr \<Rightarrow> row" where
  "mk_row l r h = \<lparr>row_lhs = l, row_rel = r, row_rhs = h, row_guard = None\<rparr>"

definition mk_guarded :: "linexpr \<Rightarrow> rel \<Rightarrow> linexpr \<Rightarrow> var \<Rightarrow> row" where
  "mk_guarded l r h g = \<lparr>row_lhs = l, row_rel = r, row_rhs = h, row_guard = Some g\<rparr>"

definition rel_holds :: "rel \<Rightarrow> int \<Rightarrow> int \<Rightarrow> bool" where
  "rel_holds r a b = (case r of REq \<Rightarrow> a = b | RLe \<Rightarrow> a \<le> b | RGe \<Rightarrow> a \<ge> b)"

definition row_holds :: "(var \<Rightarrow> int) \<Rightarrow> row \<Rightarrow> bool" where
  "row_holds a r =
     (case row_guard r of
        None \<Rightarrow> rel_holds (row_rel r) (leval a (row_lhs r)) (leval a (row_rhs r))
      | Some g \<Rightarrow> a g \<noteq> 1 \<or> rel_holds (row_rel r) (leval a (row_lhs r)) (leval a (row_rhs r)))"

text \<open>The model: declared variables with their bounds, the rows, and the objective.\<close>

record cp_model =
  m_vars :: "(var \<times> int \<times> int) list"
  m_rows :: "row list"
  m_objective :: linexpr

definition in_bounds :: "(var \<Rightarrow> int) \<Rightarrow> (var \<times> int \<times> int) \<Rightarrow> bool" where
  "in_bounds a b = (case b of (v, lo, hi) \<Rightarrow> lo \<le> a v \<and> a v \<le> hi)"

text \<open>An assignment is feasible when every variable is within its bounds and every row holds.\<close>

definition feasible :: "cp_model \<Rightarrow> (var \<Rightarrow> int) \<Rightarrow> bool" where
  "feasible m a = (list_all (in_bounds a) (m_vars m) \<and> list_all (row_holds a) (m_rows m))"

text \<open>
  What the backend answers: no solution (any status other than OPTIMAL or FEASIBLE), or
  the values of the variables with the objective value it reports.
\<close>

datatype outcome = No_solution | Solution "var \<Rightarrow> int" int

section \<open>The compiler\<close>

definition ALLOWED_KINDS :: "string list" where
  "ALLOWED_KINDS =
     [''exactly_one_assignment_per_day'', ''forbid_shift_sequences'',
      ''min_rest_minutes_between_shifts'', ''max_shifts_in_window'',
      ''max_work_minutes_in_window'', ''max_consecutive_work_days'',
      ''min_consecutive_days_off'', ''penalize_work_on_days'', ''penalize_work_on_shifts'',
      ''penalize_unmet_day_off_requests'', ''fair_distribution'']"

definition default_off :: shift_def where
  "default_off = \<lparr>sd_start = Some ''00:00'', sd_end = Some ''00:00'', sd_minutes = Some 0,
     sd_is_work = Some False\<rparr>"

text \<open>\<^verbatim>\<open>d[k] = v\<close> on a dictionary kept in insertion order.\<close>

fun dict_set :: "'k \<Rightarrow> 'v \<Rightarrow> ('k \<times> 'v) list \<Rightarrow> ('k \<times> 'v) list" where
  "dict_set k v [] = [(k, v)]"
| "dict_set k v (p # ps) = (if fst p = k then (k, v) # ps else p # dict_set k v ps)"

text \<open>\<^verbatim>\<open>{d: i for i, d in enumerate(days)}\<close>: a repeated label keeps its last index.\<close>

definition day_index_map :: "string list \<Rightarrow> (string \<times> nat) list" where
  "day_index_map days = fold (\<lambda>(i, d) m. dict_set d i m) (enumerate 0 days) []"

text \<open>What the compiler computes once and every later step reads.\<close>

record ctx =
  cx_spec :: spec
  cx_employees :: "string list"
  cx_days :: "string list"
  cx_sites :: "string list"
  cx_shift_defs :: "(string \<times> shift_def) list"
  cx_work_shifts :: "string list"
  cx_demand :: "demand list"

definition is_work_shift :: "(string \<times> shift_def) list \<Rightarrow> string \<Rightarrow> bool" where
  "is_work_shift shift_defs s =
     (s \<noteq> ''OFF'' \<and>
      (case map_of shift_defs s of None \<Rightarrow> True | Some sd \<Rightarrow> get_or (sd_is_work sd) True))"

text \<open>
  The variable dictionaries are filled for every employee, day index, work shift and
  site; reading any other key raises KeyError.
\<close>

definition x_get :: "ctx \<Rightarrow> string \<Rightarrow> nat \<Rightarrow> string \<Rightarrow> string \<Rightarrow> var py" where
  "x_get cx e d s site =
     (if e \<in> set (cx_employees cx) \<and> d < length (cx_days cx) \<and> s \<in> set (cx_work_shifts cx)
         \<and> site \<in> set (cx_sites cx)
      then Inr (X e d s site) else Inl KeyError)"

definition off_get :: "ctx \<Rightarrow> string \<Rightarrow> nat \<Rightarrow> var py" where
  "off_get cx e d =
     (if e \<in> set (cx_employees cx) \<and> d < length (cx_days cx) then Inr (Off e d)
      else Inl KeyError)"

definition declared_vars :: "ctx \<Rightarrow> (var \<times> int \<times> int) list" where
  "declared_vars cx =
     concat (map (\<lambda>e. concat (map (\<lambda>d.
       (Off e d, 0, 1) #
       concat (map (\<lambda>s. map (\<lambda>site. (X e d s site, 0, 1)) (cx_sites cx)) (cx_work_shifts cx)))
       [0..<length (cx_days cx)])) (cx_employees cx))"

text \<open>\<^verbatim>\<open>works_shift(e, d, s)\<close>: the sum over the sites.\<close>

definition works_shift :: "ctx \<Rightarrow> string \<Rightarrow> nat \<Rightarrow> string \<Rightarrow> linexpr py" where
  "works_shift cx e d s =
     ebind (traverse (\<lambda>site. x_get cx e d s site) (cx_sites cx)) (\<lambda>vs. Inr (lsum (map lvar vs)))"

text \<open>\<^verbatim>\<open>works_day(e, d)\<close>: the sum over the work shifts.\<close>

definition works_day :: "ctx \<Rightarrow> string \<Rightarrow> nat \<Rightarrow> linexpr py" where
  "works_day cx e d =
     ebind (traverse (\<lambda>s. works_shift cx e d s) (cx_work_shifts cx)) (\<lambda>es. Inr (lsum es))"

text \<open>\<^verbatim>\<open>sum(works_shift(e, d, s) for d in window for s in counted)\<close>.\<close>

definition window_sum :: "ctx \<Rightarrow> string \<Rightarrow> nat list \<Rightarrow> string list \<Rightarrow> linexpr py" where
  "window_sum cx e window counted =
     ebind (traverse (\<lambda>(d, s). works_shift cx e d s)
              (concat (map (\<lambda>d. map (\<lambda>s. (d, s)) counted) window)))
           (\<lambda>es. Inr (lsum es))"

text \<open>\<^verbatim>\<open>range(start, min(start + window_days, len(days)))\<close>.\<close>

definition window_range :: "nat \<Rightarrow> int \<Rightarrow> nat \<Rightarrow> nat list" where
  "window_range start window_days n = [start..<nat (min (int start + window_days) (int n))]"

subsection \<open>Coverage\<close>

text \<open>One skills_min or roles_min floor of a demand entry; \<open>attr\<close> reads the employee's tags.\<close>

definition floor_row ::
  "ctx \<Rightarrow> nat \<Rightarrow> string \<Rightarrow> string \<Rightarrow> (string \<Rightarrow> string list) \<Rightarrow> floor_req \<Rightarrow> row py" where
  "floor_row cx d s site attr fr =
     ebind (subscript (fr_tag fr)) (\<lambda>tag.
     ebind (subscript (fr_min fr)) (\<lambda>mn.
     ebind (traverse (\<lambda>e. x_get cx e d s site)
              (filter (\<lambda>e. tag \<in> set (attr e)) (cx_employees cx))) (\<lambda>vs.
       Inr (mk_row (lsum (map lvar vs)) RGe (lconst mn)))))"

definition cardinality_rows :: "demand \<Rightarrow> linexpr \<Rightarrow> row list" where
  "cardinality_rows req lhs =
     (case dm_eq req of
        Some q \<Rightarrow> [mk_row lhs REq (lconst q)]
      | None \<Rightarrow>
          (case dm_min req of None \<Rightarrow> [] | Some mn \<Rightarrow> [mk_row lhs RGe (lconst mn)]) @
          (case dm_max req of None \<Rightarrow> [] | Some mx \<Rightarrow> [mk_row lhs RLe (lconst mx)]))"

text \<open>
  One demand entry. The default site \<^verbatim>\<open>sites[0]\<close> is evaluated whether or not the
  entry names a site, so an empty site list raises IndexError.
\<close>

definition compile_demand :: "ctx \<Rightarrow> demand \<Rightarrow> row list py" where
  "compile_demand cx req =
     ebind (subscript (dm_day req)) (\<lambda>day.
     ebind (subscript (map_of (day_index_map (cx_days cx)) day)) (\<lambda>d.
     ebind (subscript (dm_shift req)) (\<lambda>s.
     ebind (case cx_sites cx of [] \<Rightarrow> Inl IndexError
            | s0 # _ \<Rightarrow> Inr (get_or (dm_site req) s0)) (\<lambda>site.
       if s \<notin> set (cx_work_shifts cx) then Inl ValueError
       else
         ebind (traverse (\<lambda>e. x_get cx e d s site) (cx_employees cx)) (\<lambda>vs.
         let r = get_or (dm_requirements req) no_requirements in
         ebind (traverse
                  (floor_row cx d s site
                     (\<lambda>e. get_or (emp_skills (get_employee (cx_spec cx) e)) []))
                  (get_or (rq_skills_min r) [])) (\<lambda>sk_rows.
         ebind (traverse
                  (floor_row cx d s site
                     (\<lambda>e. get_or (emp_roles (get_employee (cx_spec cx) e)) []))
                  (get_or (rq_roles_min r) [])) (\<lambda>rl_rows.
           Inr (cardinality_rows req (lsum (map lvar vs)) @ sk_rows @ rl_rows))))))))"

subsection \<open>Hard constraints\<close>

text \<open>What one constraint adds: new variables with bounds, rows, penalty terms.\<close>

type_synonym emitted = "(var \<times> int \<times> int) list \<times> row list \<times> linexpr list"

definition only_rows :: "row list \<Rightarrow> emitted" where
  "only_rows rs = ([], rs, [])"

definition merge_emitted :: "emitted list \<Rightarrow> emitted" where
  "merge_emitted es = (concat (map fst es), concat (map (fst \<circ> snd) es), concat (map (snd \<circ> snd) es))"

text \<open>exactly_one_assignment_per_day: \<^verbatim>\<open>off[(e, d)] + sum(works_shift(e, d, s) for s in counted_work) == 1\<close>.\<close>

definition counted_work :: "ctx \<Rightarrow> cdata \<Rightarrow> string list" where
  "counted_work cx cdat =
     filter (\<lambda>s. s \<noteq> ''OFF'')
       (case cd_shifts cdat of None \<Rightarrow> cx_work_shifts cx @ [''OFF''] | Some l \<Rightarrow> l)"

definition exactly_one_row :: "ctx \<Rightarrow> string list \<Rightarrow> string \<Rightarrow> nat \<Rightarrow> row py" where
  "exactly_one_row cx counted e d =
     ebind (off_get cx e d) (\<lambda>ov.
     ebind (traverse (\<lambda>s. works_shift cx e d s) counted) (\<lambda>es.
       Inr (mk_row (ladd (lvar ov) (lsum es)) REq (lconst 1))))"

definition compile_exactly_one :: "ctx \<Rightarrow> cdata \<Rightarrow> string list \<Rightarrow> emitted py" where
  "compile_exactly_one cx cdat emps =
     ebind (traverse (\<lambda>e. traverse (\<lambda>d. exactly_one_row cx (counted_work cx cdat) e d)
                            [0..<length (cx_days cx)]) emps)
       (\<lambda>rs. Inr (only_rows (concat rs)))"

text \<open>forbid_shift_sequences: the work-shift check stands inside the three loops.\<close>

definition forbid_row :: "ctx \<Rightarrow> string \<Rightarrow> nat \<Rightarrow> shift_pair \<Rightarrow> row py" where
  "forbid_row cx e d p =
     ebind (subscript (fp_prev_shift p)) (\<lambda>prev_s.
     ebind (subscript (fp_next_shift p)) (\<lambda>next_s.
       if prev_s \<notin> set (cx_work_shifts cx) \<or> next_s \<notin> set (cx_work_shifts cx)
       then Inl ValueError
       else
         ebind (works_shift cx e d prev_s) (\<lambda>a.
         ebind (works_shift cx e (d + 1) next_s) (\<lambda>b.
           Inr (mk_row (ladd a b) RLe (lconst 1))))))"

definition compile_forbid :: "ctx \<Rightarrow> cdata \<Rightarrow> string list \<Rightarrow> emitted py" where
  "compile_forbid cx cdat emps =
     ebind (traverse (\<lambda>e.
              ebind (traverse (\<lambda>d. traverse (forbid_row cx e d) (get_or (cd_forbidden_pairs cdat) []))
                       [0..<length (cx_days cx) - 1])
                (\<lambda>rs. Inr (concat rs))) emps)
       (\<lambda>rs. Inr (only_rows (concat rs)))"

text \<open>min_rest_minutes_between_shifts.\<close>

definition min_rest_rows :: "ctx \<Rightarrow> int \<Rightarrow> string \<Rightarrow> nat \<Rightarrow> string \<times> string \<Rightarrow> row list py" where
  "min_rest_rows cx min_rest e d ss =
     (case ss of (s1, s2) \<Rightarrow>
       ebind (subscript (map_of (cx_shift_defs cx) s1)) (\<lambda>da.
       ebind (subscript (map_of (cx_shift_defs cx) s2)) (\<lambda>db.
       ebind (rest_minutes_between da db) (\<lambda>rest.
         if rest < min_rest then
           ebind (works_shift cx e d s1) (\<lambda>a.
           ebind (works_shift cx e (d + 1) s2) (\<lambda>b.
             Inr [mk_row (ladd a b) RLe (lconst 1)]))
         else Inr []))))"

definition compile_min_rest :: "ctx \<Rightarrow> cdata \<Rightarrow> string list \<Rightarrow> emitted py" where
  "compile_min_rest cx cdat emps =
     ebind (subscript (cd_min_rest_minutes cdat)) (\<lambda>min_rest.
     ebind (traverse (\<lambda>e.
              ebind (traverse (\<lambda>d.
                       ebind (traverse (min_rest_rows cx min_rest e d)
                                (concat (map (\<lambda>s1. map (\<lambda>s2. (s1, s2)) (cx_work_shifts cx))
                                           (cx_work_shifts cx))))
                         (\<lambda>rs. Inr (concat rs)))
                       [0..<length (cx_days cx) - 1])
                (\<lambda>rs. Inr (concat rs))) emps)
       (\<lambda>rs. Inr (only_rows (concat rs))))"

text \<open>max_shifts_in_window: one row per employee and window start.\<close>

definition max_shifts_rows :: "ctx \<Rightarrow> int \<Rightarrow> int \<Rightarrow> string list \<Rightarrow> string \<Rightarrow> row list py" where
  "max_shifts_rows cx window_days max_allowed counted e =
     traverse (\<lambda>start.
        ebind (window_sum cx e (window_range start window_days (length (cx_days cx))) counted)
          (\<lambda>expr. Inr (mk_row expr RLe (lconst max_allowed))))
       [0..<length (cx_days cx)]"

definition counted_shifts :: "ctx \<Rightarrow> string list \<Rightarrow> string list" where
  "counted_shifts cx l = filter (\<lambda>s. s \<in> set (cx_work_shifts cx)) l"

definition compile_max_shifts :: "ctx \<Rightarrow> cdata \<Rightarrow> string list \<Rightarrow> emitted py" where
  "compile_max_shifts cx cdat emps =
     ebind (subscript (cd_window_days cdat)) (\<lambda>window_days.
     ebind (subscript (cd_max cdat)) (\<lambda>max_allowed.
       if get_or (cd_mode cdat) ''rolling'' \<noteq> ''rolling'' then Inl ValueError
       else
         ebind (traverse
                  (max_shifts_rows cx window_days max_allowed
                     (counted_shifts cx (get_or (cd_shifts cdat) (cx_work_shifts cx))))
                  emps)
           (\<lambda>rs. Inr (only_rows (concat rs)))))"

text \<open>max_work_minutes_in_window: each works_shift weighted by the shift's minutes.\<close>

definition shift_minutes :: "ctx \<Rightarrow> (string \<times> int) list py" where
  "shift_minutes cx =
     traverse (\<lambda>s. ebind (subscript (map_of (cx_shift_defs cx) s))
                      (\<lambda>sd. Inr (s, get_or (sd_minutes sd) 0)))
       (cx_work_shifts cx)"

definition minutes_sum ::
  "ctx \<Rightarrow> (string \<times> int) list \<Rightarrow> string \<Rightarrow> nat list \<Rightarrow> string list \<Rightarrow> linexpr py" where
  "minutes_sum cx sm e window counted =
     ebind (traverse (\<lambda>(d, s).
              ebind (subscript (map_of sm s)) (\<lambda>m.
              ebind (works_shift cx e d s) (\<lambda>w. Inr (lscale m w))))
              (concat (map (\<lambda>d. map (\<lambda>s. (d, s)) counted) window)))
           (\<lambda>es. Inr (lsum es))"

definition compile_max_minutes :: "ctx \<Rightarrow> cdata \<Rightarrow> string list \<Rightarrow> emitted py" where
  "compile_max_minutes cx cdat emps =
     ebind (subscript (cd_window_days cdat)) (\<lambda>window_days.
     ebind (subscript (cd_max_minutes cdat)) (\<lambda>max_minutes.
       if get_or (cd_mode cdat) ''rolling'' \<noteq> ''rolling'' then Inl ValueError
       else
         ebind (shift_minutes cx) (\<lambda>sm.
         ebind (traverse (\<lambda>e.
                  traverse (\<lambda>start.
                     ebind (minutes_sum cx sm e
                              (window_range start window_days (length (cx_days cx)))
                              (counted_shifts cx (get_or (cd_shifts cdat) (cx_work_shifts cx))))
                       (\<lambda>expr. Inr (mk_row expr RLe (lconst max_minutes))))
                    [0..<length (cx_days cx)]) emps)
           (\<lambda>rs. Inr (only_rows (concat rs))))))"

text \<open>max_consecutive_work_days: every block of \<open>max + 1\<close> days within the horizon.\<close>

definition compile_max_consecutive :: "ctx \<Rightarrow> cdata \<Rightarrow> string list \<Rightarrow> emitted py" where
  "compile_max_consecutive cx cdat emps =
     ebind (subscript (cd_max cdat)) (\<lambda>max_consec.
       let L = max_consec + 1 in
       ebind (traverse (\<lambda>e.
                traverse (\<lambda>start.
                   ebind (traverse (works_day cx e) [start..<nat (int start + L)])
                     (\<lambda>es. Inr (mk_row (lsum es) RLe (lconst max_consec))))
                  [0..<nat (int (length (cx_days cx)) - L + 1)]) emps)
         (\<lambda>rs. Inr (only_rows (concat rs))))"

text \<open>
  min_consecutive_days_off: \<open>start_off\<close> marks the first day of an off streak; the
  following \<open>k\<close> days within the horizon are forced off under that literal.
\<close>

definition days_off_cell :: "ctx \<Rightarrow> nat \<Rightarrow> int \<Rightarrow> string \<Rightarrow> nat \<Rightarrow> emitted py" where
  "days_off_cell cx ci k e d =
     (let start_off = Aux ci ''start_off'' e d in
      ebind (if d = 0 then
               ebind (off_get cx e d) (\<lambda>ov. Inr [mk_row (lvar start_off) REq (lvar ov)])
             else
               ebind (off_get cx e d) (\<lambda>ov.
               ebind (off_get cx e (d - 1)) (\<lambda>ov1.
                 Inr [mk_row (lvar start_off) RLe (lvar ov),
                      mk_row (lvar start_off) RLe (lsub (lconst 1) (lvar ov1)),
                      mk_row (lvar start_off) RGe (lsub (lvar ov) (lvar ov1))]))) (\<lambda>rs.
      ebind (traverse (\<lambda>j. ebind (off_get cx e j)
                              (\<lambda>oj. Inr (mk_guarded (lvar oj) REq (lconst 1) start_off)))
               [d..<nat (min (int d + k) (int (length (cx_days cx))))]) (\<lambda>gs.
        Inr ([(start_off, 0, 1)], rs @ gs, []))))"

definition compile_days_off :: "ctx \<Rightarrow> nat \<Rightarrow> cdata \<Rightarrow> string list \<Rightarrow> emitted py" where
  "compile_days_off cx ci cdat emps =
     ebind (subscript (cd_min cdat)) (\<lambda>k.
     ebind (traverse (\<lambda>e.
              ebind (traverse (days_off_cell cx ci k e) [0..<length (cx_days cx)])
                (\<lambda>es. Inr (merge_emitted es))) emps)
       (\<lambda>es. Inr (merge_emitted es)))"

subsection \<open>Soft constraints\<close>

text \<open>\<^verbatim>\<open>[day_to_idx[n] for n in names]\<close>: KeyError on a label that is not a day.\<close>

definition day_indices :: "ctx \<Rightarrow> string list \<Rightarrow> nat list py" where
  "day_indices cx names = traverse (\<lambda>n. subscript (map_of (day_index_map (cx_days cx)) n)) names"

text \<open>penalize_work_on_days and penalize_work_on_shifts: a 0/1 variable equal to the
  work on the day, weighted into the objective.\<close>

definition works_cell ::
  "ctx \<Rightarrow> nat \<Rightarrow> string \<Rightarrow> int \<Rightarrow> string list \<Rightarrow> string \<Rightarrow> nat \<times> nat \<Rightarrow> emitted py" where
  "works_cell cx ci tag weight counted e jd =
     (case jd of (j, d) \<Rightarrow>
       let works = Aux ci tag e j in
       ebind (traverse (\<lambda>s. works_shift cx e d s) counted) (\<lambda>es.
         Inr ([(works, 0, 1)], [mk_row (lvar works) REq (lsum es)], [lscale weight (lvar works)])))"

definition compile_work_on_days ::
  "ctx \<Rightarrow> nat \<Rightarrow> string \<Rightarrow> int \<Rightarrow> cdata \<Rightarrow> string list \<Rightarrow> emitted py" where
  "compile_work_on_days cx ci ctype weight cdat emps =
     (if ctype \<noteq> ''soft'' then Inl ValueError
      else
        ebind (subscript (cd_days cdat)) (\<lambda>day_names.
        ebind (day_indices cx day_names) (\<lambda>target_days.
        ebind (traverse (\<lambda>e.
                 ebind (traverse
                          (works_cell cx ci ''works'' weight
                             (counted_shifts cx (get_or (cd_working_shifts cdat) (cx_work_shifts cx))) e)
                          (enumerate 0 target_days))
                   (\<lambda>es. Inr (merge_emitted es))) emps)
          (\<lambda>es. Inr (merge_emitted es)))))"

definition compile_work_on_shifts ::
  "ctx \<Rightarrow> nat \<Rightarrow> string \<Rightarrow> int \<Rightarrow> cdata \<Rightarrow> string list \<Rightarrow> emitted py" where
  "compile_work_on_shifts cx ci ctype weight cdat emps =
     (if ctype \<noteq> ''soft'' then Inl ValueError
      else
        ebind (traverse (\<lambda>e.
                 ebind (traverse
                          (works_cell cx ci ''w'' weight
                             (counted_shifts cx (get_or (cd_shifts cdat) [])) e)
                          (map (\<lambda>d. (d, d)) [0..<length (cx_days cx)]))
                   (\<lambda>es. Inr (merge_emitted es))) emps)
          (\<lambda>es. Inr (merge_emitted es)))"

text \<open>penalize_unmet_day_off_requests: \<^verbatim>\<open>unmet == 1 - off[(e, d)]\<close>.\<close>

definition unmet_cell :: "ctx \<Rightarrow> nat \<Rightarrow> int \<Rightarrow> string \<Rightarrow> nat \<times> nat \<Rightarrow> emitted py" where
  "unmet_cell cx ci weight e jd =
     (case jd of (j, d) \<Rightarrow>
       let unmet = Aux ci ''unmet'' e j in
       ebind (off_get cx e d) (\<lambda>ov.
         Inr ([(unmet, 0, 1)], [mk_row (lvar unmet) REq (lsub (lconst 1) (lvar ov))],
              [lscale weight (lvar unmet)])))"

definition compile_unmet ::
  "ctx \<Rightarrow> nat \<Rightarrow> string \<Rightarrow> int \<Rightarrow> cdata \<Rightarrow> string list \<Rightarrow> emitted py" where
  "compile_unmet cx ci ctype weight cdat emps =
     (if ctype \<noteq> ''soft'' then Inl ValueError
      else (case cd_days cdat of
              None \<Rightarrow> Inl ValueError
            | Some req_days \<Rightarrow>
                ebind (day_indices cx req_days) (\<lambda>target_days.
                ebind (traverse (\<lambda>e.
                         ebind (traverse (unmet_cell cx ci weight e) (enumerate 0 target_days))
                           (\<lambda>es. Inr (merge_emitted es))) emps)
                  (\<lambda>es. Inr (merge_emitted es)))))"

text \<open>
  fair_distribution. The demand total adds \<open>eq\<close>, or \<open>min\<close> when \<open>min\<close> and \<open>max\<close> are
  both given and equal, of every demand entry whose shift is counted.
\<close>

fun demand_total :: "demand list \<Rightarrow> string list \<Rightarrow> int \<Rightarrow> int py" where
  "demand_total [] counted tot = Inr tot"
| "demand_total (req # reqs) counted tot =
     ebind (subscript (dm_shift req)) (\<lambda>s.
       demand_total reqs counted
         (if s \<in> set counted then
            (case dm_eq req of
               Some q \<Rightarrow> tot + q
             | None \<Rightarrow>
                 (case (dm_min req, dm_max req) of
                    (Some mn, Some mx) \<Rightarrow> if mn = mx then tot + mn else tot
                  | _ \<Rightarrow> tot))
          else tot))"

text \<open>
  \<^verbatim>\<open>int(round(t / n))\<close> for a positive \<open>n\<close>: Python rounds a tie to the even
  neighbour. The quotient is taken exactly; the float division of the source agrees with
  it as long as the operands stay far below 2^53.
\<close>

definition py_round_div :: "int \<Rightarrow> int \<Rightarrow> int" where
  "py_round_div t n =
     (let q = t div n; r = t mod n in
      if 2 * r < n then q
      else if 2 * r > n then q + 1
      else if even q then q else q + 1)"

definition fair_target :: "target \<Rightarrow> int \<Rightarrow> nat \<Rightarrow> int py" where
  "fair_target target_mode tot n_emps =
     (case target_mode of
        Target_str t \<Rightarrow>
          if t = ''auto_mean'' then Inr (py_round_div tot (max 1 (int n_emps)))
          else py_int_str t
      | Target_int k \<Rightarrow> Inr k)"

definition fair_windows :: "int \<Rightarrow> nat \<Rightarrow> nat list list" where
  "fair_windows window_days n =
     (if window_days \<ge> int n then [[0..<n]]
      else map (\<lambda>start. window_range start window_days n) [0..<n])"

definition fair_cell ::
  "ctx \<Rightarrow> nat \<Rightarrow> int \<Rightarrow> string list \<Rightarrow> int \<Rightarrow> nat \<Rightarrow> nat list \<Rightarrow> string \<Rightarrow> emitted py" where
  "fair_cell cx ci weight counted tgt wi window e =
     (let cnt = Aux ci ''cnt'' e wi; dev = Aux ci ''dev'' e wi;
          n = int (length (cx_days cx)) in
      ebind (window_sum cx e window counted) (\<lambda>expr.
        Inr ([(cnt, 0, n), (dev, 0, n)],
             [mk_row (lvar cnt) REq expr,
              mk_row (lvar dev) RGe (lsub (lvar cnt) (lconst tgt)),
              mk_row (lvar dev) RGe (lsub (lconst tgt) (lvar cnt))],
             [lscale weight (lvar dev)])))"

definition fair_window ::
  "ctx \<Rightarrow> nat \<Rightarrow> int \<Rightarrow> string list \<Rightarrow> target \<Rightarrow> int \<Rightarrow> string list \<Rightarrow> nat \<times> nat list \<Rightarrow> emitted py" where
  "fair_window cx ci weight counted target_mode tot emps ww =
     (case ww of (wi, window) \<Rightarrow>
       ebind (fair_target target_mode tot (length emps)) (\<lambda>tgt.
       ebind (traverse (fair_cell cx ci weight counted tgt wi window) emps)
         (\<lambda>es. Inr (merge_emitted es))))"

definition compile_fair ::
  "ctx \<Rightarrow> nat \<Rightarrow> string \<Rightarrow> int \<Rightarrow> cdata \<Rightarrow> string list \<Rightarrow> emitted py" where
  "compile_fair cx ci ctype weight cdat emps =
     (if ctype \<noteq> ''soft'' then Inl ValueError
      else
        let measure = get_or (cd_measure cdat) ''count'';
            penalize = get_or (cd_penalize cdat) ''absolute_deviation'';
            counted = counted_shifts cx (get_or (cd_shifts cdat) []);
            window_days = get_or (cd_window_days cdat) (int (length (cx_days cx)));
            target_mode = get_or (cd_target cdat) (Target_str ''auto_mean'')
        in
        if measure \<noteq> ''count'' \<or> penalize \<noteq> ''absolute_deviation'' then Inl ValueError
        else if counted = [] then Inl ValueError
        else
          ebind (demand_total (cx_demand cx) counted 0) (\<lambda>tot.
          ebind (traverse (fair_window cx ci weight counted target_mode tot emps)
                   (enumerate 0 (fair_windows window_days (length (cx_days cx)))))
            (\<lambda>es. Inr (merge_emitted es))))"

subsection \<open>The constraint loop\<close>

definition compile_constraint :: "ctx \<Rightarrow> nat \<times> cons \<Rightarrow> emitted py" where
  "compile_constraint cx ic =
     (case ic of (ci, c) \<Rightarrow>
       ebind (subscript (c_id c)) (\<lambda>cid.
       ebind (subscript (c_type c)) (\<lambda>ctype.
       ebind (subscript (c_kind c)) (\<lambda>kind.
         let scope = get_or (c_scope c) no_scope;
             cdat = get_or (c_data c) no_data;
             weight = get_or (pn_weight (get_or (c_penalty c) \<lparr>pn_weight = None\<rparr>)) 0;
             emps = select_employees_by_scope (cx_spec cx) scope
         in
         if kind = ''exactly_one_assignment_per_day'' then compile_exactly_one cx cdat emps
         else if kind = ''forbid_shift_sequences'' then compile_forbid cx cdat emps
         else if kind = ''min_rest_minutes_between_shifts'' then compile_min_rest cx cdat emps
         else if kind = ''max_shifts_in_window'' then compile_max_shifts cx cdat emps
         else if kind = ''max_work_minutes_in_window'' then compile_max_minutes cx cdat emps
         else if kind = ''max_consecutive_work_days'' then compile_max_consecutive cx cdat emps
         else if kind = ''min_consecutive_days_off'' then compile_days_off cx ci cdat emps
         else if kind = ''penalize_work_on_days'' then
           compile_work_on_days cx ci ctype weight cdat emps
         else if kind = ''penalize_work_on_shifts'' then
           compile_work_on_shifts cx ci ctype weight cdat emps
         else if kind = ''penalize_unmet_day_off_requests'' then
           compile_unmet cx ci ctype weight cdat emps
         else if kind = ''fair_distribution'' then compile_fair cx ci ctype weight cdat emps
         else Inl ValueError))))"

text \<open>Demand first, then the constraints in order; the objective is the sum of the
  penalty terms, or 0 when there is none.\<close>

definition compile_model :: "ctx \<Rightarrow> cons list \<Rightarrow> cp_model py" where
  "compile_model cx constraints =
     ebind (traverse (compile_demand cx) (cx_demand cx)) (\<lambda>drows.
     ebind (traverse (compile_constraint cx) (enumerate 0 constraints)) (\<lambda>ems.
       let em = merge_emitted ems in
       Inr \<lparr>m_vars = declared_vars cx @ fst em,
            m_rows = concat drows @ fst (snd em),
            m_objective = (if snd (snd em) = [] then lconst 0 else lsum (snd (snd em)))\<rparr>))"

section \<open>The solver driver\<close>

text \<open>
  The result record. A day of the schedule has one dictionary of shifts per site and the
  list under the key "OFF"; that key takes the place of a site of the same name.
\<close>

record day_schedule =
  ds_sites :: "(string \<times> (string \<times> string list) list) list"
  ds_off :: "string list"

record metrics =
  mt_minutes_worked :: "(string \<times> int) list"
  mt_shift_counts :: "(string \<times> (string \<times> int) list) list"

datatype result = Res_no_solution | Res_ok int "(string \<times> day_schedule) list" metrics

text \<open>\<^verbatim>\<open>{site: {s: [] for s in work_shifts} for site in sites} | {"OFF": []}\<close>.\<close>

definition empty_day :: "ctx \<Rightarrow> day_schedule" where
  "empty_day cx =
     \<lparr>ds_sites =
        filter (\<lambda>p. fst p \<noteq> ''OFF'')
          (fold (\<lambda>site m. dict_set site (fold (\<lambda>s c. dict_set s [] c) (cx_work_shifts cx) []) m)
             (cx_sites cx) []),
      ds_off = []\<rparr>"

text \<open>
  One day of the result: the employees whose off variable is 1 are appended to the OFF
  list, then every (site, shift) cell is assigned the employees whose x variable is 1.
  When a site is named "OFF" the cell assignment indexes the OFF list with a string and
  raises TypeError.
\<close>

definition fill_day :: "ctx \<Rightarrow> (var \<Rightarrow> int) \<Rightarrow> nat \<Rightarrow> day_schedule \<Rightarrow> day_schedule py" where
  "fill_day cx a d entry =
     (let off_list = ds_off entry @ filter (\<lambda>e. a (Off e d) = 1) (cx_employees cx) in
      if ''OFF'' \<in> set (cx_sites cx) \<and> cx_work_shifts cx \<noteq> [] then Inl TypeError
      else
        Inr \<lparr>ds_sites =
               fold (\<lambda>site m.
                  fold (\<lambda>s m'.
                     dict_set site
                       (dict_set s (filter (\<lambda>e. a (X e d s site) = 1) (cx_employees cx))
                          (get_or (map_of m' site) [])) m')
                    (cx_work_shifts cx) m)
                 (cx_sites cx) (ds_sites entry),
             ds_off = off_list\<rparr>)"

fun fill_schedule ::
  "ctx \<Rightarrow> (var \<Rightarrow> int) \<Rightarrow> (nat \<times> string) list \<Rightarrow> (string \<times> day_schedule) list
     \<Rightarrow> (string \<times> day_schedule) list py" where
  "fill_schedule cx a [] sch = Inr sch"
| "fill_schedule cx a (dn # rest) sch =
     ebind (subscript (map_of sch (snd dn))) (\<lambda>entry.
     ebind (fill_day cx a (fst dn) entry) (\<lambda>entry'.
       fill_schedule cx a rest (dict_set (snd dn) entry' sch)))"

text \<open>
  The metrics loop of one employee over the days and work shifts: when the value of
  \<^verbatim>\<open>works_shift(e, d, s)\<close> is not zero, the shift's minutes are added and the
  shift's count goes up by one.
\<close>

fun tally ::
  "ctx \<Rightarrow> (var \<Rightarrow> int) \<Rightarrow> (string \<times> int) list \<Rightarrow> string \<Rightarrow> (nat \<times> string) list
     \<Rightarrow> int \<times> (string \<times> int) list \<Rightarrow> (int \<times> (string \<times> int) list) py" where
  "tally cx a sm e [] acc = Inr acc"
| "tally cx a sm e (ds # rest) acc =
     ebind (works_shift cx e (fst ds) (snd ds)) (\<lambda>ex.
       if leval a ex \<noteq> 0 then
         ebind (subscript (map_of sm (snd ds))) (\<lambda>m.
         ebind (subscript (map_of (snd acc) (snd ds))) (\<lambda>c.
           tally cx a sm e rest (fst acc + m, dict_set (snd ds) (c + 1) (snd acc))))
       else tally cx a sm e rest acc)"

definition day_shift_pairs :: "ctx \<Rightarrow> (nat \<times> string) list" where
  "day_shift_pairs cx =
     concat (map (\<lambda>d. map (\<lambda>s. (d, s)) (cx_work_shifts cx)) [0..<length (cx_days cx)])"

definition employee_metrics ::
  "ctx \<Rightarrow> (var \<Rightarrow> int) \<Rightarrow> (string \<times> int) list \<Rightarrow> string \<Rightarrow> (int \<times> (string \<times> int) list) py" where
  "employee_metrics cx a sm e =
     tally cx a sm e (day_shift_pairs cx)
       (0, fold (\<lambda>s c. dict_set s 0 c) (cx_work_shifts cx) [])"

definition materialize :: "ctx \<Rightarrow> (var \<Rightarrow> int) \<Rightarrow> int \<Rightarrow> result py" where
  "materialize cx a obj =
     ebind (fill_schedule cx a (enumerate 0 (cx_days cx))
              (fold (\<lambda>day m. dict_set day (empty_day cx) m) (cx_days cx) [])) (\<lambda>sch.
     ebind (shift_minutes cx) (\<lambda>sm.
     ebind (traverse (\<lambda>e. ebind (employee_metrics cx a sm e) (\<lambda>r. Inr (e, r)))
              (cx_employees cx)) (\<lambda>rs.
       Inr (Res_ok obj sch
              \<lparr>mt_minutes_worked = fold (\<lambda>r m. dict_set (fst r) (fst (snd r)) m) rs [],
               mt_shift_counts = fold (\<lambda>r m. dict_set (fst r) (snd (snd r)) m) rs []\<rparr>))))"

text \<open>
  The first lines of \<^verbatim>\<open>compile_and_solve\<close>. \<^verbatim>\<open>shift_defs\<close> is the dictionary
  stored in the specification when the key "shifts" is there, and a fresh empty one
  otherwise; the default OFF entry is stored into that dictionary.
\<close>

definition local_shift_defs :: "spec \<Rightarrow> (string \<times> shift_def) list" where
  "local_shift_defs spec =
     (let shift_defs = get_or (sp_shifts spec) [] in
      if map_of shift_defs ''OFF'' = None then dict_set ''OFF'' default_off shift_defs
      else shift_defs)"

definition spec_after :: "spec \<Rightarrow> spec" where
  "spec_after spec =
     (case sp_shifts spec of
        None \<Rightarrow> spec
      | Some shift_defs \<Rightarrow>
          if map_of shift_defs ''OFF'' = None
          then spec\<lparr>sp_shifts := Some (dict_set ''OFF'' default_off shift_defs)\<rparr>
          else spec)"

definition unsupported_kind :: "cons \<Rightarrow> bool" where
  "unsupported_kind c = (case c_kind c of None \<Rightarrow> True | Some k \<Rightarrow> k \<notin> set ALLOWED_KINDS)"

definition make_ctx :: "spec \<Rightarrow> ctx" where
  "make_ctx spec =
     \<lparr>cx_spec = spec_after spec,
      cx_employees = s_employees (sp_sets spec),
      cx_days = s_days (sp_sets spec),
      cx_sites = get_or (s_sites (sp_sets spec)) [''SITE_DEFAULT''],
      cx_shift_defs = local_shift_defs spec,
      cx_work_shifts = filter (is_work_shift (local_shift_defs spec)) (s_shifts (sp_sets spec)),
      cx_demand = get_or (sp_demand spec) []\<rparr>"

text \<open>
  \<^verbatim>\<open>compile_and_solve(spec, max_time, workers)\<close>. The backend is a parameter: given
  the time limit, the worker count and the model it answers with an outcome. The first
  component of the result is the specification object as the call leaves it, the second
  is the exception raised or the record returned.
\<close>

definition compile_and_solve ::
  "('t \<Rightarrow> int \<Rightarrow> cp_model \<Rightarrow> outcome) \<Rightarrow> spec \<Rightarrow> 't \<Rightarrow> int \<Rightarrow> spec \<times> result py" where
  "compile_and_solve backend spec max_time workers =
     (if ''OFF'' \<notin> set (s_shifts (sp_sets spec)) then (spec, Inl ValueError)
      else
        (spec_after spec,
         if list_ex unsupported_kind (get_or (sp_constraints spec) []) then Inl ValueError
         else
           ebind (compile_model (make_ctx spec) (get_or (sp_constraints spec) [])) (\<lambda>m.
             case backend max_time workers m of
               No_solution \<Rightarrow> Inr Res_no_solution
             | Solution a obj \<Rightarrow> materialize (make_ctx spec) a obj)))"

section \<open>The compiled model of a specification\<close>

text \<open>The model that \<open>compile_and_solve\<close> hands to the backend.\<close>

definition compiled_model :: "spec \<Rightarrow> cp_model py" where
  "compiled_model spec = compile_model (make_ctx spec) (get_or (sp_constraints spec) [])"

definition feasible_for :: "spec \<Rightarrow> (var \<Rightarrow> int) \<Rightarrow> bool" where
  "feasible_for spec a = (case compiled_model spec of Inl _ \<Rightarrow> False | Inr m \<Rightarrow> feasible m a)"

text \<open>The variables of one employee and day: the off variable and the x variables of
  the given shifts at every site.\<close>

definition day_vars :: "ctx \<Rightarrow> string list \<Rightarrow> string \<Rightarrow> nat \<Rightarrow> var list" where
  "day_vars cx counted e d =
     Off e d # concat (map (\<lambda>s. map (\<lambda>site. X e d s site) (cx_sites cx)) counted)"

section \<open>Concrete inputs\<close>

text \<open>One employee, one day, the shifts OFF and M (08:00 to 16:00, 480 minutes), the
  default site, one demand entry; the shift dictionary has no entry for OFF.\<close>

definition tiny_spec :: spec where
  "tiny_spec = \<lparr>sp_sets = \<lparr>s_employees = [''P1''], s_days = [''D1''],
       s_shifts = [''OFF'', ''M''], s_sites = None\<rparr>,
     sp_shifts = Some [(''M'', \<lparr>sd_start = Some ''08:00'', sd_end = Some ''16:00'', sd_minutes = Some 480, sd_is_work = None\<rparr>)],
     sp_employees = None, sp_groups = None,
     sp_demand = Some [\<lparr>dm_day = Some ''D1'', dm_shift = Some ''M'', dm_site = None, dm_eq = Some 1, dm_min = None, dm_max = None, dm_requirements = None\<rparr>],
     sp_constraints = None\<rparr>"

text \<open>One employee, one day, the work shifts M and N, and an
  \<open>exactly_one_assignment_per_day\<close> constraint whose \<open>data.shifts\<close> is [M].\<close>

definition exactly_one_m :: cons where
  "exactly_one_m = \<lparr>c_id = Some ''c1'', c_type = Some ''hard'',
     c_kind = Some ''exactly_one_assignment_per_day'', c_scope = None,
     c_data = Some (no_data\<lparr>cd_shifts := Some [''M'']\<rparr>), c_penalty = None\<rparr>"

definition two_shift_spec :: spec where
  "two_shift_spec = \<lparr>sp_sets = \<lparr>s_employees = [''P1''], s_days = [''D1''],
       s_shifts = [''OFF'', ''M'', ''N''], s_sites = None\<rparr>,
     sp_shifts = None, sp_employees = None, sp_groups = None, sp_demand = None,
     sp_constraints = Some [exactly_one_m]\<rparr>"

text \<open>Two assignments: every x variable one and off zero; only the M shift worked.\<close>

fun both_shifts :: "var \<Rightarrow> int" where
  "both_shifts (X e d s site) = 1"
| "both_shifts (Off e d) = 0"
| "both_shifts (Aux i t e j) = 0"

fun only_m :: "var \<Rightarrow> int" where
  "only_m (X e d s site) = (if s = ''M'' then 1 else 0)"
| "only_m (Off e d) = 0"
| "only_m (Aux i t e j) = 0"



text \<open>A pair of a forbid constraint names a shift that is not a work shift.\<close>

definition non_work_pair :: "ctx \<Rightarrow> shift_pair \<Rightarrow> bool" where
  "non_work_pair cx p =
     (case (fp_prev_shift p, fp_next_shift p) of
        (Some a, Some b) \<Rightarrow> a \<notin> set (cx_work_shifts cx) \<or> b \<notin> set (cx_work_shifts cx)
      | _ \<Rightarrow> False)"

text \<open>A pair has both of its keys.\<close>

definition has_both_keys :: "shift_pair \<Rightarrow> bool" where
  "has_both_keys p = (fp_prev_shift p \<noteq> None \<and> fp_next_shift p \<noteq> None)"

text \<open>Two backends: one that never finds a solution, and one that answers with every
  variable at one when that assignment is feasible.\<close>

definition refusing_backend :: "unit \<Rightarrow> int \<Rightarrow> cp_model \<Rightarrow> outcome" where
  "refusing_backend t w m = No_solution"

fun all_ones :: "var \<Rightarrow> int" where
  "all_ones v = 1"

definition eager_backend :: "unit \<Rightarrow> int \<Rightarrow> cp_model \<Rightarrow> outcome" where
  "eager_backend t w m =
     (if feasible m all_ones then Solution all_ones (leval all_ones (m_objective m))
      else No_solution)"

text \<open>A forbid constraint whose only pair is (OFF, M), on one day and on two days.\<close>

definition forbid_off :: cons where
  "forbid_off = \<lparr>c_id = Some ''f1'', c_type = Some ''hard'',
     c_kind = Some ''forbid_shift_sequences'', c_scope = None,
     c_data = Some (no_data\<lparr>cd_forbidden_pairs :=
        Some [\<lparr>fp_prev_shift = Some ''OFF'', fp_next_shift = Some ''M''\<rparr>]\<rparr>),
     c_penalty = None\<rparr>"

definition forbid_spec :: "string list \<Rightarrow> spec" where
  "forbid_spec days = \<lparr>sp_sets = \<lparr>s_employees = [''P1''], s_days = days,
       s_shifts = [''OFF'', ''M''], s_sites = None\<rparr>,
     sp_shifts = Some [(''OFF'', default_off),
        (''M'', \<lparr>sd_start = Some ''08:00'', sd_end = Some ''16:00'', sd_minutes = Some 480,
                 sd_is_work = None\<rparr>)],
     sp_employees = None, sp_groups = None, sp_demand = None,
     sp_constraints = Some [forbid_off]\<rparr>"





text \<open>The value of \<open>works_shift(e, d, s)\<close> under an assignment, and the minutes of a shift
  as the metrics read them (\<open>minutes\<close> of the definition, 0 when the key is missing).\<close>

definition works_value :: "ctx \<Rightarrow> (var \<Rightarrow> int) \<Rightarrow> string \<Rightarrow> nat \<Rightarrow> string \<Rightarrow> int" where
  "works_value cx a e d s = sum_list (map (\<lambda>site. a (X e d s site)) (cx_sites cx))"

definition minutes_of :: "ctx \<Rightarrow> string \<Rightarrow> int" where
  "minutes_of cx s =
     (case map_of (cx_shift_defs cx) s of None \<Rightarrow> 0 | Some sd \<Rightarrow> get_or (sd_minutes sd) 0)"

text \<open>The minutes as the claim words them: minutes times works_shift, summed over the
  days and work shifts.\<close>

definition claimed_minutes :: "ctx \<Rightarrow> (var \<Rightarrow> int) \<Rightarrow> string \<Rightarrow> int" where
  "claimed_minutes cx a e =
     sum_list (map (\<lambda>ds. minutes_of cx (snd ds) * works_value cx a e (fst ds) (snd ds))
                 (day_shift_pairs cx))"

text \<open>The minutes counted once for every day and work shift whose works_shift value is
  not zero.\<close>

definition counted_minutes :: "ctx \<Rightarrow> (var \<Rightarrow> int) \<Rightarrow> string \<Rightarrow> int" where
  "counted_minutes cx a e =
     sum_list (map (\<lambda>ds. if works_value cx a e (fst ds) (snd ds) \<noteq> 0
                          then minutes_of cx (snd ds) else 0)
                 (day_shift_pairs cx))"

definition at_most_once :: "ctx \<Rightarrow> (var \<Rightarrow> int) \<Rightarrow> string \<Rightarrow> bool" where
  "at_most_once cx a e =
     list_all (\<lambda>ds. works_value cx a e (fst ds) (snd ds) = 0 \<or> works_value cx a e (fst ds) (snd ds) = 1)
       (day_shift_pairs cx)"

text \<open>One employee, one day, the work shift M of 480 minutes and two sites.\<close>

definition two_site_spec :: spec where
  "two_site_spec = \<lparr>sp_sets = \<lparr>s_employees = [''P1''], s_days = [''D1''],
       s_shifts = [''OFF'', ''M''], s_sites = Some [''A'', ''B'']\<rparr>,
     sp_shifts = Some [(''OFF'', default_off),
        (''M'', \<lparr>sd_start = Some ''08:00'', sd_end = Some ''16:00'', sd_minutes = Some 480,
                 sd_is_work = None\<rparr>)],
     sp_employees = None, sp_groups = None, sp_demand = None, sp_constraints = None\<rparr>"

section \<open>Properties of the time helpers\<close>

lemma length5: "length v = 5 \<Longrightarrow> \<exists>a b c d e. v = [a, b, c, d, e]"
  by (auto simp: length_Suc_conv eval_nat_numeral)

lemma digit_not_special:
  assumes "is_digit c"
  shows "\<not> is_space c" "c \<noteq> CHR ''-''" "c \<noteq> CHR ''+''" "c \<noteq> CHR '':''" "c \<noteq> CHR ''_''"
    "(of_char c :: nat) < 128"
  using assms by (auto simp: is_digit_def is_space_def)

lemma py_int_str_two_digits:
  assumes "is_digit a" "is_digit b"
  shows "py_int_str [a, b] = Inr (10 * int (digit_val a) + int (digit_val b))"
  using assms digit_not_special[OF assms(1)] digit_not_special[OF assms(2)]
  by (simp add: py_int_str_def to_ascii_def py_strip_def py_int_body_def)

lemma split_colon_hhmm:
  assumes "a \<noteq> CHR '':''" "b \<noteq> CHR '':''" "d \<noteq> CHR '':''" "e \<noteq> CHR '':''"
  shows "split_colon [a, b, CHR '':'', d, e] = [[a, b], [d, e]]"
  using assms by simp

lemma is_hhmm_str_shape:
  assumes "is_hhmm_str v = Inr True"
  shows "\<exists>a b d e. v = [a, b, CHR '':'', d, e] \<and> is_digit a \<and> is_digit b \<and> is_digit d \<and> is_digit e"
proof -
  from assms have len: "length v = 5" and mid: "v ! 2 = CHR '':''"
    by (auto simp: is_hhmm_str_def split: if_splits)
  from length5[OF len] obtain a b c d e where v: "v = [a, b, c, d, e]" by blast
  with mid have c: "c = CHR '':''" by simp
  from assms v c show ?thesis
    by (auto simp: is_hhmm_str_def isdigit_def split: if_splits list.splits)
qed

lemma parse_valid: "is_hhmm_str v = Inr True \<Longrightarrow> parse_hhmm v = Inr (hhmm_minutes v)"
proof -
  assume h: "is_hhmm_str v = Inr True"
  from is_hhmm_str_shape[OF h] obtain a b d e where
    v: "v = [a, b, CHR '':'', d, e]" and da: "is_digit a" and db: "is_digit b"
    and dd: "is_digit d" and de: "is_digit e" by blast
  have sp: "split_colon v = [[a, b], [d, e]]"
    unfolding v using digit_not_special(4)[OF da] digit_not_special(4)[OF db]
      digit_not_special(4)[OF dd] digit_not_special(4)[OF de]
    by (rule split_colon_hhmm)
  have hm: "hhmm_minutes v = 60 * (10 * int (digit_val a) + int (digit_val b))
       + (10 * int (digit_val d) + int (digit_val e))"
    by (simp add: hhmm_minutes_def v)
  show ?thesis
    by (simp add: parse_hhmm_def sp py_int_str_two_digits[OF da db] py_int_str_two_digits[OF dd de]
        ebind_def hm)
qed

lemma hhmm_range: "is_hhmm_str v = Inr True \<Longrightarrow> 0 \<le> hhmm_minutes v \<and> hhmm_minutes v \<le> 1439"
proof -
  assume h: "is_hhmm_str v = Inr True"
  from is_hhmm_str_shape[OF h] obtain a b d e where
    v: "v = [a, b, CHR '':'', d, e]" and da: "is_digit a" and db: "is_digit b"
    and dd: "is_digit d" and de: "is_digit e" by blast
  have sp: "split_colon v = [[a, b], [d, e]]"
    unfolding v using digit_not_special(4)[OF da] digit_not_special(4)[OF db]
      digit_not_special(4)[OF dd] digit_not_special(4)[OF de]
    by (rule split_colon_hhmm)
  have hm: "hhmm_minutes v = 60 * (10 * int (digit_val a) + int (digit_val b))
       + (10 * int (digit_val d) + int (digit_val e))"
    by (simp add: hhmm_minutes_def v)
  have len: "length v = 5" "v ! 2 = CHR '':''" by (simp_all add: v)
  from h show ?thesis
    by (simp add: is_hhmm_str_def len sp py_int_str_two_digits[OF da db] py_int_str_two_digits[OF dd de]
        ebind_def hm isdigit_def da db dd de split: if_splits)
qed

lemma rest_valid:
  assumes a: "valid_times a" and b: "valid_times b"
  shows "rest_minutes_between a b =
     Inr ((1440 + start_of b) - (if end_of a \<ge> start_of a then end_of a else 1440 + end_of a))"
proof -
  from a obtain sa ea where sa: "sd_start a = Some sa" and ea: "sd_end a = Some ea"
    and vsa: "is_hhmm_str sa = Inr True" and vea: "is_hhmm_str ea = Inr True"
    by (auto simp: valid_times_def split: option.splits)
  from b obtain sb eb where sb: "sd_start b = Some sb" and eb: "sd_end b = Some eb"
    and vsb: "is_hhmm_str sb = Inr True" and veb: "is_hhmm_str eb = Inr True"
    by (auto simp: valid_times_def split: option.splits)
  show ?thesis
    by (simp add: rest_minutes_between_def shift_interval_minutes_def subscript_def ebind_def
        sa ea sb eb parse_valid[OF vsa] parse_valid[OF vea] parse_valid[OF vsb] parse_valid[OF veb]
        start_of_def end_of_def Let_def)
qed

text \<open>
  C6: for shift definitions whose start and end pass the validator's HH:MM check,
  \<open>rest_minutes_between a b\<close> returns (1440 + start of b) minus the end of a placed on
  the absolute timeline (the end itself when it is not before the start, else 1440 more),
  with times read as 60*HH+MM. A 22:00-06:00 shift followed by a shift that starts at
  14:00 gives exactly 480, and the result can be negative.
\<close>

theorem rest_minutes_between_formula:
  "(\<forall>a b. valid_times a \<and> valid_times b \<longrightarrow>
      rest_minutes_between a b =
        Inr ((1440 + start_of b) - (if end_of a \<ge> start_of a then end_of a else 1440 + end_of a)))
   \<and> rest_minutes_between (shift_of_times ''22:00'' ''06:00'') (shift_of_times ''14:00'' ''22:00'') = Inr 480
   \<and> (\<exists>a b r. valid_times a \<and> valid_times b \<and> rest_minutes_between a b = Inr r \<and> r < 0)"
proof (intro conjI allI impI)
  fix a b assume "valid_times a \<and> valid_times b"
  then show "rest_minutes_between a b =
        Inr ((1440 + start_of b) - (if end_of a \<ge> start_of a then end_of a else 1440 + end_of a))"
    using rest_valid by blast
next
  show "rest_minutes_between (shift_of_times ''22:00'' ''06:00'') (shift_of_times ''14:00'' ''22:00'') = Inr 480"
    by (simp add: shift_of_times_def rest_minutes_between_def shift_interval_minutes_def subscript_def
        ebind_def parse_hhmm_def py_int_str_def to_ascii_def py_strip_def is_space_def py_int_body_def
        is_digit_def digit_val_def Let_def)
next
  have "rest_minutes_between (shift_of_times ''23:59'' ''23:58'') (shift_of_times ''00:00'' ''08:00'') = Inr (- 1438)"
    by (simp add: shift_of_times_def rest_minutes_between_def shift_interval_minutes_def subscript_def
        ebind_def parse_hhmm_def py_int_str_def to_ascii_def py_strip_def is_space_def py_int_body_def
        is_digit_def digit_val_def Let_def)
  moreover have "valid_times (shift_of_times ''23:59'' ''23:58'')" "valid_times (shift_of_times ''00:00'' ''08:00'')"
    by (simp_all add: valid_times_def shift_of_times_def is_hhmm_str_def isdigit_def is_digit_def py_int_str_def to_ascii_def py_strip_def is_space_def py_int_body_def digit_val_def ebind_def)
  ultimately show "\<exists>a b r. valid_times a \<and> valid_times b \<and> rest_minutes_between a b = Inr r \<and> r < 0"
    by (intro exI[of _ "shift_of_times ''23:59'' ''23:58''"] exI[of _ "shift_of_times ''00:00'' ''08:00''"] exI[of _ "- 1438"]) simp
qed

theorem rest_minutes_between_formula_witness:
  "valid_times (shift_of_times ''08:00'' ''16:00'') \<and> valid_times (shift_of_times ''00:00'' ''08:00'')
   \<and> rest_minutes_between (shift_of_times ''08:00'' ''16:00'') (shift_of_times ''00:00'' ''08:00'') = Inr 480"
proof -
  have v: "valid_times (shift_of_times ''08:00'' ''16:00'') \<and> valid_times (shift_of_times ''00:00'' ''08:00'')"
    by (simp add: valid_times_def shift_of_times_def is_hhmm_str_def isdigit_def is_digit_def py_int_str_def to_ascii_def py_strip_def is_space_def py_int_body_def digit_val_def ebind_def)
  have "rest_minutes_between (shift_of_times ''08:00'' ''16:00'') (shift_of_times ''00:00'' ''08:00'') =
        Inr ((1440 + start_of (shift_of_times ''00:00'' ''08:00'')) -
          (if end_of (shift_of_times ''08:00'' ''16:00'') \<ge> start_of (shift_of_times ''08:00'' ''16:00'')
           then end_of (shift_of_times ''08:00'' ''16:00'') else 1440 + end_of (shift_of_times ''08:00'' ''16:00'')))"
    using rest_minutes_between_formula v by blast
  also have "\<dots> = Inr 480"
    by (simp add: start_of_def end_of_def shift_of_times_def hhmm_minutes_def digit_val_def)
  finally show ?thesis using v by simp
qed

section \<open>Properties of the scope selector\<close>

lemma normalize_empty: "absent_or_empty v \<Longrightarrow> normalize_list v = []"
  by (auto simp: absent_or_empty_def normalize_list_def)

lemma finite_filter_groups: "finite sel \<Longrightarrow> finite (filter_groups g gs sel)"
  unfolding filter_groups_def by (induction gs arbitrary: sel) auto

lemma filter_groups_subset: "filter_groups g gs sel \<subseteq> sel"
  unfolding filter_groups_def
proof (induction gs arbitrary: sel)
  case Nil
  show ?case by simp
next
  case (Cons a gs)
  have "fold (\<lambda>ga sel. sel \<inter> set (get_or (map_of g ga) [])) gs (sel \<inter> set (get_or (map_of g a) []))
          \<subseteq> sel \<inter> set (get_or (map_of g a) [])"
    by (rule Cons.IH)
  then show ?case by auto
qed

lemma filter_any_subset: "filter_any t f sel \<subseteq> sel" by (auto simp: filter_any_def)
lemma filter_all_subset: "filter_all t f sel \<subseteq> sel" by (auto simp: filter_all_def)
lemma filter_in_subset: "filter_in t f sel \<subseteq> sel" by (auto simp: filter_in_def)

lemma select_subset: "set (select_employees_by_scope spec scope) \<subseteq> start_set spec scope"
proof -
  have fin: "finite (start_set spec scope)"
    by (simp add: start_set_def split: option.splits emp_sel.splits)
  let ?A = "filter_in (normalize_list (sc_contracts_any scope)) (contract_type spec)
     (filter_in (normalize_list (sc_sites_any scope)) (\<lambda>e. emp_site_home (get_employee spec e))
     (filter_all (normalize_list (sc_roles_all scope)) (\<lambda>e. get_or (emp_roles (get_employee spec e)) [])
     (filter_any (normalize_list (sc_roles_any scope)) (\<lambda>e. get_or (emp_roles (get_employee spec e)) [])
     (filter_all (normalize_list (sc_skills_all scope)) (\<lambda>e. get_or (emp_skills (get_employee spec e)) [])
     (filter_any (normalize_list (sc_skills_any scope)) (\<lambda>e. get_or (emp_skills (get_employee spec e)) [])
     (filter_groups (get_groups spec) (normalize_list (sc_groups scope)) (start_set spec scope)))))))"
  have sub: "?A \<subseteq> start_set spec scope"
    by (meson filter_in_subset filter_all_subset filter_any_subset filter_groups_subset subset_trans)
  then have "finite ?A" using fin finite_subset by blast
  then have "set (sorted_list_of_set ?A) = ?A" by simp
  moreover have "select_employees_by_scope spec scope = sorted_list_of_set ?A"
    by (simp add: select_employees_by_scope_def Let_def)
  ultimately show ?thesis using sub by simp
qed

lemma all_filters_iff: "list_all P all_filters \<longleftrightarrow> (\<forall>f. P f)"
proof
  assume a: "list_all P all_filters"
  show "\<forall>f. P f"
  proof
    fix f show "P f" using a by (cases f) (simp_all add: all_filters_def)
  qed
next
  assume "\<forall>f. P f" then show "list_all P all_filters" by (simp add: all_filters_def)
qed

lemma absent_or_empty_iff: "absent_or_empty v \<longleftrightarrow> normalize_list v = []"
  by (auto simp: absent_or_empty_def normalize_list_def split: option.splits strs.splits)

lemma filter_groups_char:
  "filter_groups groups gs sel = {e \<in> sel. list_all (\<lambda>g. e \<in> set (get_or (map_of groups g) [])) gs}"
  unfolding filter_groups_def by (induction gs arbitrary: sel) auto

lemma filter_any_char: "filter_any tags attr sel = {e \<in> sel. tags = [] \<or> set tags \<inter> set (attr e) \<noteq> {}}"
  by (auto simp: filter_any_def)

lemma filter_all_char: "filter_all tags attr sel = {e \<in> sel. tags = [] \<or> set tags \<subseteq> set (attr e)}"
  by (auto simp: filter_all_def)

lemma filter_in_char:
  "filter_in tags attr sel =
     {e \<in> sel. tags = [] \<or> (case attr e of None \<Rightarrow> False | Some a \<Rightarrow> a \<in> set tags)}"
  by (auto simp: filter_in_def)

lemma finite_start_set: "finite (start_set spec scope)"
  by (simp add: start_set_def split: option.splits emp_sel.splits)

lemma meets_all_filters:
  "list_all (\<lambda>f. absent_or_empty (filter_value scope f) \<or> meets spec scope f e) all_filters \<longleftrightarrow>
     (normalize_list (sc_groups scope) = []
        \<or> list_all (\<lambda>g. e \<in> set (get_or (map_of (get_groups spec) g) [])) (normalize_list (sc_groups scope)))
   \<and> (normalize_list (sc_skills_any scope) = []
        \<or> set (normalize_list (sc_skills_any scope)) \<inter> set (get_or (emp_skills (get_employee spec e)) []) \<noteq> {})
   \<and> (normalize_list (sc_skills_all scope) = []
        \<or> set (normalize_list (sc_skills_all scope)) \<subseteq> set (get_or (emp_skills (get_employee spec e)) []))
   \<and> (normalize_list (sc_roles_any scope) = []
        \<or> set (normalize_list (sc_roles_any scope)) \<inter> set (get_or (emp_roles (get_employee spec e)) []) \<noteq> {})
   \<and> (normalize_list (sc_roles_all scope) = []
        \<or> set (normalize_list (sc_roles_all scope)) \<subseteq> set (get_or (emp_roles (get_employee spec e)) []))
   \<and> (normalize_list (sc_sites_any scope) = []
        \<or> (case emp_site_home (get_employee spec e) of None \<Rightarrow> False
            | Some a \<Rightarrow> a \<in> set (normalize_list (sc_sites_any scope))))
   \<and> (normalize_list (sc_contracts_any scope) = []
        \<or> (case contract_type spec e of None \<Rightarrow> False
            | Some a \<Rightarrow> a \<in> set (normalize_list (sc_contracts_any scope))))"
  by (simp add: all_filters_def meets_def filter_value_def absent_or_empty_iff Let_def
      cong: option.case_cong)

lemma select_pipeline:
  "select_employees_by_scope spec scope = sorted_list_of_set
    (filter_in (normalize_list (sc_contracts_any scope)) (contract_type spec)
     (filter_in (normalize_list (sc_sites_any scope)) (\<lambda>e. emp_site_home (get_employee spec e))
     (filter_all (normalize_list (sc_roles_all scope)) (\<lambda>e. get_or (emp_roles (get_employee spec e)) [])
     (filter_any (normalize_list (sc_roles_any scope)) (\<lambda>e. get_or (emp_roles (get_employee spec e)) [])
     (filter_all (normalize_list (sc_skills_all scope)) (\<lambda>e. get_or (emp_skills (get_employee spec e)) [])
     (filter_any (normalize_list (sc_skills_any scope)) (\<lambda>e. get_or (emp_skills (get_employee spec e)) [])
     (filter_groups (get_groups spec) (normalize_list (sc_groups scope)) (start_set spec scope))))))))"
  by (simp only: select_employees_by_scope_def Let_def)

lemma select_set:
  "set (select_employees_by_scope spec scope) =
     {e \<in> start_set spec scope. list_all (\<lambda>f. absent_or_empty (filter_value scope f) \<or> meets spec scope f e) all_filters}"
proof -
  let ?A = "filter_in (normalize_list (sc_contracts_any scope)) (contract_type spec)
     (filter_in (normalize_list (sc_sites_any scope)) (\<lambda>e. emp_site_home (get_employee spec e))
     (filter_all (normalize_list (sc_roles_all scope)) (\<lambda>e. get_or (emp_roles (get_employee spec e)) [])
     (filter_any (normalize_list (sc_roles_any scope)) (\<lambda>e. get_or (emp_roles (get_employee spec e)) [])
     (filter_all (normalize_list (sc_skills_all scope)) (\<lambda>e. get_or (emp_skills (get_employee spec e)) [])
     (filter_any (normalize_list (sc_skills_any scope)) (\<lambda>e. get_or (emp_skills (get_employee spec e)) [])
     (filter_groups (get_groups spec) (normalize_list (sc_groups scope)) (start_set spec scope)))))))"
  have sub: "?A \<subseteq> start_set spec scope"
    by (meson filter_in_subset filter_all_subset filter_any_subset filter_groups_subset subset_trans)
  then have "finite ?A" using finite_start_set finite_subset by blast
  then have s: "set (sorted_list_of_set ?A) = ?A" by simp
  have m: "e \<in> ?A \<longleftrightarrow> e \<in> start_set spec scope
       \<and> list_all (\<lambda>f. absent_or_empty (filter_value scope f) \<or> meets spec scope f e) all_filters" for e
    unfolding filter_groups_char filter_any_char filter_all_char filter_in_char mem_Collect_eq
      meets_all_filters
    by (cases "normalize_list (sc_groups scope) = []") simp_all
  show ?thesis
    unfolding select_pipeline s using m by blast
qed

lemma comprehension_set:
  assumes "iteration_order it" "finite S"
  shows "comprehension it cond S = {e \<in> S. cond e}"
proof -
  from assms have "set (it S) = S" unfolding iteration_order_def by blast
  then show ?thesis by (simp add: comprehension_def)
qed

lemma filter_any_iter_eq:
  "iteration_order it \<Longrightarrow> finite sel \<Longrightarrow> filter_any_iter it tags attr sel = filter_any tags attr sel"
  by (simp add: filter_any_iter_def filter_any_def comprehension_set)

lemma filter_all_iter_eq:
  "iteration_order it \<Longrightarrow> finite sel \<Longrightarrow> filter_all_iter it tags attr sel = filter_all tags attr sel"
  by (simp add: filter_all_iter_def filter_all_def comprehension_set)

lemma filter_in_iter_eq:
  "iteration_order it \<Longrightarrow> finite sel \<Longrightarrow> filter_in_iter it tags attr sel = filter_in tags attr sel"
  by (simp add: filter_in_iter_def filter_in_def comprehension_set)

lemma finite_filter_any: "finite sel \<Longrightarrow> finite (filter_any t f sel)"
  by (rule finite_subset[OF filter_any_subset])

lemma finite_filter_all: "finite sel \<Longrightarrow> finite (filter_all t f sel)"
  by (rule finite_subset[OF filter_all_subset])

lemma finite_filter_in: "finite sel \<Longrightarrow> finite (filter_in t f sel)"
  by (rule finite_subset[OF filter_in_subset])

lemma sort_iteration:
  assumes "iteration_order it" "finite S"
  shows "sort (it S) = sorted_list_of_set S"
proof -
  from assms have s: "set (it S) = S" and d: "distinct (it S)"
    unfolding iteration_order_def by blast+
  from d have "sort (it S) = sort (remdups (it S))" by (simp only: distinct_remdups_id)
  also have "\<dots> = sorted_list_of_set (set (it S))"
    by (simp only: sorted_list_of_set_sort_remdups)
  finally show ?thesis by (simp only: s)
qed

lemma select_iter_eq:
  assumes "iteration_order it"
  shows "select_employees_by_scope_iter it spec scope = select_employees_by_scope spec scope"
  unfolding select_employees_by_scope_iter_def select_employees_by_scope_def Let_def
  using assms
  by (simp add: filter_any_iter_eq filter_all_iter_eq filter_in_iter_eq sort_iteration
      finite_filter_any finite_filter_all finite_filter_in finite_filter_groups finite_start_set)

text \<open>
  C9: \<open>select_employees_by_scope\<close> returns its selection in ascending order of the ids
  and without repetition. Whatever order the sets are iterated in, the result is the same
  list, so two invocations on equal inputs return equal lists. The selection holds exactly
  the ids of the start set that meet the condition of every filter that is neither absent
  nor empty; hence a filter that is absent or empty leaves the selection unchanged: the
  result is what the other six filters select.
\<close>

theorem select_sorted_deterministic:
  "sorted (select_employees_by_scope spec scope)
   \<and> distinct (select_employees_by_scope spec scope)
   \<and> (\<forall>it it'. iteration_order it \<and> iteration_order it' \<longrightarrow>
         select_employees_by_scope_iter it spec scope = select_employees_by_scope_iter it' spec scope)
   \<and> (\<forall>it. iteration_order it \<longrightarrow>
         select_employees_by_scope_iter it spec scope = select_employees_by_scope spec scope)
   \<and> set (select_employees_by_scope spec scope) =
        {e \<in> start_set spec scope.
           list_all (\<lambda>f. absent_or_empty (filter_value scope f) \<or> meets spec scope f e) all_filters}
   \<and> (\<forall>f. absent_or_empty (filter_value scope f) \<longrightarrow>
         set (select_employees_by_scope spec scope) =
           {e \<in> start_set spec scope.
              list_all (\<lambda>f'. absent_or_empty (filter_value scope f') \<or> meets spec scope f' e)
                (removeAll f all_filters)})"
proof (intro conjI allI impI)
  show "sorted (select_employees_by_scope spec scope)"
    by (simp add: select_employees_by_scope_def Let_def)
  show "distinct (select_employees_by_scope spec scope)"
    by (simp add: select_employees_by_scope_def Let_def)
next
  fix it it' assume "iteration_order it \<and> iteration_order it'"
  then show "select_employees_by_scope_iter it spec scope = select_employees_by_scope_iter it' spec scope"
    by (simp add: select_iter_eq)
next
  fix it assume "iteration_order it"
  then show "select_employees_by_scope_iter it spec scope = select_employees_by_scope spec scope"
    by (rule select_iter_eq)
next
  show "set (select_employees_by_scope spec scope) =
        {e \<in> start_set spec scope.
           list_all (\<lambda>f. absent_or_empty (filter_value scope f) \<or> meets spec scope f e) all_filters}"
    by (rule select_set)
next
  fix f assume a: "absent_or_empty (filter_value scope f)"
  have "list_all P all_filters \<longleftrightarrow> list_all P (removeAll f all_filters)"
    if "P f" for P :: "filter_name \<Rightarrow> bool"
    using that by (auto simp: list_all_iff)
  from this[of "\<lambda>f'. absent_or_empty (filter_value scope f') \<or> meets spec scope f' e" for e] a
  show "set (select_employees_by_scope spec scope) =
           {e \<in> start_set spec scope.
              list_all (\<lambda>f'. absent_or_empty (filter_value scope f') \<or> meets spec scope f' e)
                (removeAll f all_filters)}"
    unfolding select_set by simp
qed

lemma descending_order: "iteration_order descending"
  by (simp add: iteration_order_def descending_def)

lemma skilled_select: "select_employees_by_scope skilled_spec certified_scope = [''P1'', ''P3'']"
proof -
  have s: "start_set skilled_spec certified_scope = {''P1'', ''P2'', ''P3''}"
    by (auto simp: start_set_def certified_scope_def no_scope_def skilled_spec_def)
  have k: "get_or (emp_skills (get_employee skilled_spec e)) [] =
      (if e = ''P1'' then [''certified''] else if e = ''P3'' then [''driver'', ''certified''] else [])" for e
    by (simp add: get_employee_def skilled_spec_def get_or_def no_employee_def)
  have "{e \<in> {''P1'', ''P2'', ''P3''}. e = ''P1'' \<or> e = ''P3''} = {''P1'', ''P3''}" by auto
  then show ?thesis
    unfolding select_pipeline s
    by (simp add: certified_scope_def no_scope_def normalize_list_def filter_groups_def
        filter_any_def filter_all_def filter_in_def k sorted_list_of_set_sort_remdups)
qed

theorem select_sorted_deterministic_witness:
  "iteration_order descending
   \<and> absent_or_empty (filter_value certified_scope Groups)
   \<and> select_employees_by_scope skilled_spec certified_scope = [''P1'', ''P3'']
   \<and> select_employees_by_scope_iter descending skilled_spec certified_scope = [''P1'', ''P3'']
   \<and> {e \<in> start_set skilled_spec certified_scope.
         list_all (\<lambda>f. absent_or_empty (filter_value certified_scope f) \<or> meets skilled_spec certified_scope f e)
           (removeAll Groups all_filters)} = {''P1'', ''P3''}"
proof -
  have a: "absent_or_empty (filter_value certified_scope Groups)"
    by (simp add: absent_or_empty_def filter_value_def certified_scope_def)
  note t = select_sorted_deterministic[of skilled_spec certified_scope]
  from t descending_order
  have i: "select_employees_by_scope_iter descending skilled_spec certified_scope
           = select_employees_by_scope skilled_spec certified_scope" by blast
  from t a
  have n: "set (select_employees_by_scope skilled_spec certified_scope) =
      {e \<in> start_set skilled_spec certified_scope.
         list_all (\<lambda>f. absent_or_empty (filter_value certified_scope f) \<or> meets skilled_spec certified_scope f e)
           (removeAll Groups all_filters)}" by blast
  from i n a descending_order show ?thesis by (simp add: skilled_select)
qed

text \<open>
  C10: when \<open>scope.employees\<close> is an explicit list the selection starts from exactly that
  list, whatever \<open>sets.employees\<close> holds; with no other filter the result is that list
  sorted, so the result can contain an id that \<open>sets.employees\<close> does not.
\<close>

theorem explicit_employees_not_intersected:
  "(\<forall>spec scope l. start_set spec (scope\<lparr>sc_employees := Some (Emp_list l)\<rparr>) = set l)
   \<and> (\<forall>spec l. select_employees_by_scope spec (no_scope\<lparr>sc_employees := Some (Emp_list l)\<rparr>)
          = sorted_list_of_set (set l))
   \<and> (\<exists>spec scope e. e \<in> set (select_employees_by_scope spec scope)
          \<and> e \<notin> set (s_employees (sp_sets spec)))"
proof (intro conjI allI)
  fix spec :: spec and scope :: scope and l
  show "start_set spec (scope\<lparr>sc_employees := Some (Emp_list l)\<rparr>) = set l"
    by (simp add: start_set_def)
  show "select_employees_by_scope spec (no_scope\<lparr>sc_employees := Some (Emp_list l)\<rparr>)
          = sorted_list_of_set (set l)"
    by (simp add: select_employees_by_scope_def Let_def no_scope_def normalize_list_def filter_groups_def
        filter_any_def filter_all_def filter_in_def start_set_def)
next
  have "select_employees_by_scope demo_spec (no_scope\<lparr>sc_employees := Some (Emp_list [''P9'', ''P1''])\<rparr>) = [''P1'', ''P9'']"
    by (simp add: select_employees_by_scope_def Let_def no_scope_def normalize_list_def filter_groups_def
        filter_any_def filter_all_def filter_in_def start_set_def sorted_list_of_set_sort_remdups)
  moreover have "''P9'' \<notin> set (s_employees (sp_sets demo_spec))" by (simp add: demo_spec_def)
  ultimately show "\<exists>spec scope e. e \<in> set (select_employees_by_scope spec scope)
          \<and> e \<notin> set (s_employees (sp_sets spec))"
    by (intro exI[of _ demo_spec] exI[of _ "no_scope\<lparr>sc_employees := Some (Emp_list [''P9'', ''P1''])\<rparr>"] exI[of _ "''P9''"]) simp
qed

theorem explicit_employees_not_intersected_witness:
  "select_employees_by_scope demo_spec (no_scope\<lparr>sc_employees := Some (Emp_list [''P9'', ''P1''])\<rparr>)
     = [''P1'', ''P9'']
   \<and> ''P9'' \<notin> set (s_employees (sp_sets demo_spec))"
proof -
  have "select_employees_by_scope demo_spec (no_scope\<lparr>sc_employees := Some (Emp_list [''P9'', ''P1''])\<rparr>)
          = sorted_list_of_set (set [''P9'', ''P1''])"
    using explicit_employees_not_intersected by blast
  then show ?thesis
    by (simp add: sorted_list_of_set_sort_remdups demo_spec_def)
qed

section \<open>Reasoning about the compiler\<close>

subsection \<open>The exception monad\<close>

lemma ebind_Inr_iff: "ebind m f = Inr y \<longleftrightarrow> (\<exists>x. m = Inr x \<and> f x = Inr y)"
  by (cases m) (auto simp: ebind_def)

lemma ebind_Inr: "m = Inr x \<Longrightarrow> ebind m f = f x"
  by (simp add: ebind_def)

lemma ebind_Inl: "m = Inl e \<Longrightarrow> ebind m f = Inl e"
  by (simp add: ebind_def)

lemma traverse_Inr_iff: "traverse f xs = Inr ys \<longleftrightarrow> list_all2 (\<lambda>x y. f x = Inr y) xs ys"
proof (induction xs arbitrary: ys)
  case Nil
  show ?case by auto
next
  case (Cons x xs)
  show ?case
  proof (cases ys)
    case Nil
    then show ?thesis by (auto split: sum.splits)
  next
    case (Cons y ys')
    then show ?thesis using Cons.IH[of ys'] by (auto split: sum.splits)
  qed
qed

lemma traverse_Inr_mem:
  assumes "traverse f xs = Inr ys" "x \<in> set xs"
  shows "\<exists>y\<in>set ys. f x = Inr y"
proof -
  from assms(1) have l: "list_all2 (\<lambda>x y. f x = Inr y) xs ys" by (simp add: traverse_Inr_iff)
  from assms(2) obtain i where i: "i < length xs" "xs ! i = x" by (auto simp: in_set_conv_nth)
  with l have "f x = Inr (ys ! i)" "i < length ys"
    by (auto simp: list_all2_conv_all_nth)
  then show ?thesis by auto
qed

lemma traverse_Inr_nth:
  assumes "traverse f xs = Inr ys" "i < length xs"
  shows "f (xs ! i) = Inr (ys ! i) \<and> i < length ys"
  using assms by (auto simp: traverse_Inr_iff list_all2_conv_all_nth)

lemma traverse_total:
  assumes "\<And>x. x \<in> set xs \<Longrightarrow> f x = Inr (g x)"
  shows "traverse f xs = Inr (map g xs)"
  using assms by (induction xs) auto

lemma traverse_first_error:
  assumes "\<And>x. x \<in> set pre \<Longrightarrow> \<exists>y. f x = Inr y" "f b = Inl err"
  shows "traverse f (pre @ b # post) = Inl err"
  using assms
proof (induction pre)
  case Nil
  then show ?case by simp
next
  case (Cons p pre)
  from Cons.prems(1)[of p] obtain y where y: "f p = Inr y" by auto
  have "traverse f (pre @ b # post) = Inl err"
    by (rule Cons.IH) (use Cons.prems in auto)
  with y show ?case by simp
qed

subsection \<open>Linear expressions\<close>

lemma leval_lconst [simp]: "leval a (lconst k) = k"
  by (simp add: leval_def lconst_def)

lemma leval_lvar [simp]: "leval a (lvar v) = a v"
  by (simp add: leval_def lvar_def)

lemma leval_ladd [simp]: "leval a (ladd x y) = leval a x + leval a y"
  by (simp add: leval_def ladd_def)

lemma leval_lscale [simp]: "leval a (lscale k x) = k * leval a x"
proof -
  have "sum_list (map (\<lambda>(c, v). c * a v) (map (\<lambda>(c, v). (k * c, v)) ts))
          = k * sum_list (map (\<lambda>(c, v). c * a v) ts)" for ts
    by (induction ts) (auto simp: algebra_simps)
  then show ?thesis by (simp add: leval_def lscale_def algebra_simps)
qed

lemma leval_lsub [simp]: "leval a (lsub x y) = leval a x - leval a y"
  by (simp add: lsub_def)

lemma leval_foldl: "leval a (foldl ladd acc es) = leval a acc + sum_list (map (leval a) es)"
  by (induction es arbitrary: acc) auto

lemma leval_lsum [simp]: "leval a (lsum es) = sum_list (map (leval a) es)"
  by (simp add: lsum_def leval_foldl)

lemma row_holds_mk_row [simp]:
  "row_holds a (mk_row l r h) = rel_holds r (leval a l) (leval a h)"
  by (simp add: row_holds_def mk_row_def)

subsection \<open>Variable lookups\<close>

lemma traverse_x_get:
  assumes "traverse (\<lambda>site. x_get cx e d s site) sites = Inr vs"
  shows "vs = map (\<lambda>site. X e d s site) sites"
proof -
  from assms have "list_all2 (\<lambda>site v. x_get cx e d s site = Inr v) sites vs"
    by (simp add: traverse_Inr_iff)
  then have "list_all2 (\<lambda>site v. v = X e d s site) sites vs"
    by (rule list_all2_mono) (auto simp: x_get_def split: if_splits)
  then show ?thesis
    by (induction sites vs rule: list_all2_induct) auto
qed

lemma works_shift_eval:
  assumes "works_shift cx e d s = Inr ex"
  shows "leval a ex = sum_list (map (\<lambda>site. a (X e d s site)) (cx_sites cx))"
proof -
  from assms obtain vs where vs: "traverse (\<lambda>site. x_get cx e d s site) (cx_sites cx) = Inr vs"
    and ex: "ex = lsum (map lvar vs)"
    by (auto simp: works_shift_def ebind_Inr_iff)
  from traverse_x_get[OF vs] ex show ?thesis by (simp add: comp_def)
qed

lemma works_shift_keys:
  assumes "works_shift cx e d s = Inr ex" "site \<in> set (cx_sites cx)"
  shows "e \<in> set (cx_employees cx) \<and> d < length (cx_days cx) \<and> s \<in> set (cx_work_shifts cx)"
proof -
  from assms(1) obtain vs where vs: "traverse (\<lambda>site. x_get cx e d s site) (cx_sites cx) = Inr vs"
    by (auto simp: works_shift_def ebind_Inr_iff)
  from traverse_Inr_mem[OF vs assms(2)] show ?thesis
    by (auto simp: x_get_def split: if_splits)
qed

lemma works_shift_ok:
  assumes "e \<in> set (cx_employees cx)" "d < length (cx_days cx)" "s \<in> set (cx_work_shifts cx)"
  shows "works_shift cx e d s = Inr (lsum (map lvar (map (\<lambda>site. X e d s site) (cx_sites cx))))"
proof -
  have "traverse (\<lambda>site. x_get cx e d s site) (cx_sites cx) = Inr (map (\<lambda>site. X e d s site) (cx_sites cx))"
    by (rule traverse_total) (simp add: x_get_def assms)
  then show ?thesis by (simp add: works_shift_def ebind_def)
qed

lemma declared_off:
  "e \<in> set (cx_employees cx) \<Longrightarrow> d < length (cx_days cx) \<Longrightarrow> (Off e d, 0, 1) \<in> set (declared_vars cx)"
  by (force simp: declared_vars_def)

lemma declared_x:
  "e \<in> set (cx_employees cx) \<Longrightarrow> d < length (cx_days cx) \<Longrightarrow> s \<in> set (cx_work_shifts cx)
     \<Longrightarrow> site \<in> set (cx_sites cx) \<Longrightarrow> (X e d s site, 0, 1) \<in> set (declared_vars cx)"
  by (fastforce simp: declared_vars_def)

section \<open>The compiler's effect on its input\<close>

lemmas py_defs = ebind_def subscript_def get_or_def

lemma tiny_ctx: "make_ctx tiny_spec =
   \<lparr>cx_spec = spec_after tiny_spec, cx_employees = [''P1''], cx_days = [''D1''],
    cx_sites = [''SITE_DEFAULT''],
    cx_shift_defs = [(''M'', \<lparr>sd_start = Some ''08:00'', sd_end = Some ''16:00'', sd_minutes = Some 480, sd_is_work = None\<rparr>),
                     (''OFF'', default_off)],
    cx_work_shifts = [''M''],
    cx_demand = [\<lparr>dm_day = Some ''D1'', dm_shift = Some ''M'', dm_site = None, dm_eq = Some 1, dm_min = None, dm_max = None, dm_requirements = None\<rparr>]\<rparr>"
  by (simp add: make_ctx_def tiny_spec_def local_shift_defs_def is_work_shift_def get_or_def default_off_def)

lemma tiny_model: "compile_model (make_ctx tiny_spec) [] =
   Inr \<lparr>m_vars = [(Off ''P1'' 0, 0, 1), (X ''P1'' 0 ''M'' ''SITE_DEFAULT'', 0, 1)],
        m_rows = [mk_row (lsum [lvar (X ''P1'' 0 ''M'' ''SITE_DEFAULT'')]) REq (lconst 1)],
        m_objective = lconst 0\<rparr>"
  unfolding tiny_ctx
  by (simp add: compile_model_def compile_demand_def py_defs day_index_map_def enumerate_eq_zip
      x_get_def no_requirements_def merge_emitted_def declared_vars_def cardinality_rows_def)

lemma tiny_materialize: "\<exists>r. materialize (make_ctx tiny_spec) a obj = Inr r"
  unfolding tiny_ctx
  by (simp add: materialize_def py_defs enumerate_eq_zip empty_day_def fill_day_def shift_minutes_def
      employee_metrics_def day_shift_pairs_def works_shift_def x_get_def)

text \<open>
  C2 (the code departs from the claim): on a specification whose shift dictionary is
  present and has no OFF entry, \<open>compile_and_solve\<close> returns normally, whatever the
  backend answers, and leaves the specification changed: its shift dictionary now holds
  the default OFF entry.
\<close>

theorem compile_and_solve_mutates_spec:
  "fst (compile_and_solve backend tiny_spec t w) \<noteq> tiny_spec
   \<and> map_of (the (sp_shifts tiny_spec)) ''OFF'' = None
   \<and> map_of (the (sp_shifts (fst (compile_and_solve backend tiny_spec t w)))) ''OFF'' = Some default_off
   \<and> (\<exists>r. snd (compile_and_solve backend tiny_spec t w) = Inr r)"
proof (intro conjI)
  show "fst (compile_and_solve backend tiny_spec t w) \<noteq> tiny_spec"
    by (simp add: compile_and_solve_def tiny_spec_def spec_after_def)
  show "map_of (the (sp_shifts tiny_spec)) ''OFF'' = None"
    by (simp add: tiny_spec_def)
  show "map_of (the (sp_shifts (fst (compile_and_solve backend tiny_spec t w)))) ''OFF'' = Some default_off"
    by (simp add: compile_and_solve_def tiny_spec_def spec_after_def)
  have sh: "''OFF'' \<in> set (s_shifts (sp_sets tiny_spec))" "sp_constraints tiny_spec = None"
    by (simp_all add: tiny_spec_def)
  show "\<exists>r. snd (compile_and_solve backend tiny_spec t w) = Inr r"
  proof (cases "backend t w \<lparr>m_vars = [(Off ''P1'' 0, 0, 1), (X ''P1'' 0 ''M'' ''SITE_DEFAULT'', 0, 1)],
        m_rows = [mk_row (lsum [lvar (X ''P1'' 0 ''M'' ''SITE_DEFAULT'')]) REq (lconst 1)],
        m_objective = lconst 0\<rparr>")
    case No_solution
    then show ?thesis
      by (simp add: compile_and_solve_def sh get_or_def tiny_model ebind_def)
  next
    case (Solution a obj)
    then show ?thesis
      using tiny_materialize[of a obj]
      by (simp add: compile_and_solve_def sh get_or_def tiny_model ebind_def)
  qed
qed

section \<open>Exactly one assignment per day\<close>

subsection \<open>What a successful compilation emitted\<close>

lemma merge_rows_mem: "em \<in> set ems \<Longrightarrow> set (fst (snd em)) \<subseteq> set (fst (snd (merge_emitted ems)))"
  by (auto simp: merge_emitted_def)

lemma compile_model_vars:
  assumes "compile_model cx cs = Inr m"
  shows "set (declared_vars cx) \<subseteq> set (m_vars m)"
  using assms by (auto simp: compile_model_def ebind_Inr_iff Let_def)

lemma compile_model_rows:
  assumes "compile_model cx cs = Inr m" "c \<in> set cs"
  shows "\<exists>i em. i < length cs \<and> cs ! i = c \<and> compile_constraint cx (i, c) = Inr em
           \<and> set (fst (snd em)) \<subseteq> set (m_rows m)"
proof -
  from assms(1) obtain drows ems where
    ems: "traverse (compile_constraint cx) (enumerate 0 cs) = Inr ems"
    and m: "m_rows m = concat drows @ fst (snd (merge_emitted ems))"
    by (auto simp: compile_model_def ebind_Inr_iff Let_def)
  from assms(2) obtain i where i: "i < length cs" "cs ! i = c" by (auto simp: in_set_conv_nth)
  then have ni: "i < length (enumerate 0 cs)" "enumerate 0 cs ! i = (i, c)"
    by (simp_all add: nth_enumerate_eq)
  from traverse_Inr_nth[OF ems ni(1)] ni(2)
  have c: "compile_constraint cx (i, c) = Inr (ems ! i)" "i < length ems" by simp_all
  then have "ems ! i \<in> set ems" by simp
  from merge_rows_mem[OF this] m have "set (fst (snd (ems ! i))) \<subseteq> set (m_rows m)" by auto
  with i c show ?thesis by blast
qed

lemma select_spec_after:
  "select_employees_by_scope (spec_after spec) scope = select_employees_by_scope spec scope"
proof -
  have e: "get_employee (spec_after spec) = get_employee spec"
    by (auto simp: get_employee_def spec_after_def fun_eq_iff split: option.splits)
  have g: "get_groups (spec_after spec) = get_groups spec"
    by (auto simp: get_groups_def spec_after_def split: option.splits)
  have s: "start_set (spec_after spec) scope = start_set spec scope"
    by (auto simp: start_set_def spec_after_def split: option.splits emp_sel.splits)
  have c: "contract_type (spec_after spec) = contract_type spec"
    by (simp add: contract_type_def e fun_eq_iff)
  show ?thesis
    by (simp add: select_employees_by_scope_def e g s c)
qed

lemma compile_constraint_exactly_one:
  assumes "compile_constraint cx (i, c) = Inr em"
    and "c_kind c = Some ''exactly_one_assignment_per_day''"
  shows "compile_exactly_one cx (get_or (c_data c) no_data)
           (select_employees_by_scope (cx_spec cx) (get_or (c_scope c) no_scope)) = Inr em"
  using assms by (auto simp: compile_constraint_def ebind_Inr_iff subscript_def Let_def split: option.splits)

lemma compile_exactly_one_row:
  assumes "compile_exactly_one cx cdat emps = Inr em" "e \<in> set emps" "d < length (cx_days cx)"
  shows "\<exists>r\<in>set (fst (snd em)). exactly_one_row cx (counted_work cx cdat) e d = Inr r"
proof -
  from assms(1) obtain rss where
    rss: "traverse (\<lambda>e. traverse (\<lambda>d. exactly_one_row cx (counted_work cx cdat) e d)
                            [0..<length (cx_days cx)]) emps = Inr rss"
    and em: "em = only_rows (concat rss)"
    by (auto simp: compile_exactly_one_def ebind_Inr_iff)
  from traverse_Inr_mem[OF rss assms(2)] obtain rs where
    rs: "rs \<in> set rss" "traverse (\<lambda>d. exactly_one_row cx (counted_work cx cdat) e d)
                            [0..<length (cx_days cx)] = Inr rs" by auto
  from assms(3) have "d \<in> set [0..<length (cx_days cx)]" by simp
  from traverse_Inr_mem[OF rs(2) this] obtain r where
    r: "r \<in> set rs" "exactly_one_row cx (counted_work cx cdat) e d = Inr r" by auto
  from rs(1) r(1) em have "r \<in> set (fst (snd em))" by (auto simp: only_rows_def)
  with r(2) show ?thesis by blast
qed

lemma sum_list_map_concat:
  fixes a :: "'a \<Rightarrow> int"
  shows "sum_list (map a (concat xss)) = sum_list (map (\<lambda>xs. sum_list (map a xs)) xss)"
  by (induction xss) auto

lemma sum_list_day_vars:
  "sum_list (map a (day_vars cx counted e d)) =
     a (Off e d) + sum_list (map (\<lambda>s. sum_list (map (\<lambda>site. a (X e d s site)) (cx_sites cx))) counted)"
proof -
  have "sum_list (map a (concat (map (\<lambda>s. map (\<lambda>site. X e d s site) (cx_sites cx)) counted)))
        = sum_list (map (\<lambda>s. sum_list (map (\<lambda>site. a (X e d s site)) (cx_sites cx))) counted)"
    by (induction counted) (simp_all add: comp_def)
  then show ?thesis by (simp add: day_vars_def)
qed

lemma exactly_one_row_sem:
  assumes "exactly_one_row cx counted e d = Inr r" "row_holds a r"
  shows "sum_list (map a (day_vars cx counted e d)) = 1"
proof -
  from assms(1) obtain ov es where ov: "off_get cx e d = Inr ov"
    and es: "traverse (\<lambda>s. works_shift cx e d s) counted = Inr es"
    and r: "r = mk_row (ladd (lvar ov) (lsum es)) REq (lconst 1)"
    by (auto simp: exactly_one_row_def ebind_Inr_iff)
  from ov have ov': "ov = Off e d" by (auto simp: off_get_def split: if_splits)
  from es have "list_all2 (\<lambda>s ex. works_shift cx e d s = Inr ex) counted es"
    by (simp add: traverse_Inr_iff)
  then have "list_all2 (\<lambda>s ex. leval a ex = sum_list (map (\<lambda>site. a (X e d s site)) (cx_sites cx))) counted es"
    by (rule list_all2_mono) (simp add: works_shift_eval)
  then have "map (leval a) es = map (\<lambda>s. sum_list (map (\<lambda>site. a (X e d s site)) (cx_sites cx))) counted"
    by (induction counted es rule: list_all2_induct) auto
  with assms(2) r ov' show ?thesis
    by (simp add: sum_list_day_vars rel_holds_def)
qed

lemma exactly_one_row_declared:
  assumes "exactly_one_row cx counted e d = Inr r" "v \<in> set (day_vars cx counted e d)"
  shows "(v, 0, 1) \<in> set (declared_vars cx)"
proof -
  from assms(1) obtain ov es where ov: "off_get cx e d = Inr ov"
    and es: "traverse (\<lambda>s. works_shift cx e d s) counted = Inr es"
    by (auto simp: exactly_one_row_def ebind_Inr_iff)
  from ov have ed: "e \<in> set (cx_employees cx)" "d < length (cx_days cx)"
    by (auto simp: off_get_def split: if_splits)
  from assms(2) consider "v = Off e d"
    | s site where "s \<in> set counted" "site \<in> set (cx_sites cx)" "v = X e d s site"
    by (auto simp: day_vars_def)
  then show ?thesis
  proof cases
    case 1
    then show ?thesis using declared_off[OF ed] by simp
  next
    case 2
    from traverse_Inr_mem[OF es 2(1)] obtain ex where "works_shift cx e d s = Inr ex" by auto
    from works_shift_keys[OF this 2(2)] have "s \<in> set (cx_work_shifts cx)" by simp
    from declared_x[OF ed this 2(2)] 2(3) show ?thesis by simp
  qed
qed

lemma member_le_sum_list_int:
  fixes a :: "'a \<Rightarrow> int"
  assumes "\<forall>x\<in>set L. 0 \<le> a x" "v \<in> set L"
  shows "a v \<le> sum_list (map a L)"
  using assms
proof (induction L)
  case Nil
  then show ?case by simp
next
  case (Cons x L)
  have nn: "0 \<le> sum_list (map a L)" using Cons.prems(1) by (intro sum_list_nonneg) auto
  show ?case
  proof (cases "v = x")
    case True
    with nn show ?thesis by simp
  next
    case False
    with Cons have "a v \<le> sum_list (map a L)" by simp
    moreover have "0 \<le> a x" using Cons.prems(1) by simp
    ultimately show ?thesis by simp
  qed
qed

lemma two_members_le_sum_list:
  fixes a :: "'a \<Rightarrow> int"
  assumes nn: "\<forall>x\<in>set L. 0 \<le> a x" and v: "v \<in> set L" and w: "w \<in> set L" and ne: "v \<noteq> w"
  shows "a v + a w \<le> sum_list (map a L)"
proof -
  from v obtain pre post where L: "L = pre @ v # post" by (auto dest: split_list)
  with w ne have w': "w \<in> set (pre @ post)" by auto
  have "\<forall>x\<in>set (pre @ post). 0 \<le> a x" using nn L by auto
  from member_le_sum_list_int[OF this w'] have "a w \<le> sum_list (map a (pre @ post))" .
  then show ?thesis by (simp add: L)
qed

text \<open>
  C3 (amended): let the specification compile, let an
  \<open>exactly_one_assignment_per_day\<close> constraint select employee \<open>e\<close>, and let an
  assignment be feasible for the compiled model. Then on every day \<open>d\<close> at most one
  variable equals one among \<open>off[e,d]\<close> and the \<open>x[e,d,s,site]\<close> with \<open>s\<close> a shift the
  constraint counts (\<open>data.shifts\<close> without OFF when given, else every work shift) and
  \<open>site\<close> any site.
\<close>

theorem exactly_one_counted_shifts:
  assumes comp: "compiled_model spec = Inr m"
    and c: "c \<in> set (get_or (sp_constraints spec) [])"
    and kind: "c_kind c = Some ''exactly_one_assignment_per_day''"
    and e: "e \<in> set (select_employees_by_scope spec (get_or (c_scope c) no_scope))"
    and d: "d < length (s_days (sp_sets spec))"
    and feas: "feasible m a"
    and v: "v \<in> set (day_vars (make_ctx spec) (counted_work (make_ctx spec) (get_or (c_data c) no_data)) e d)"
    and w: "w \<in> set (day_vars (make_ctx spec) (counted_work (make_ctx spec) (get_or (c_data c) no_data)) e d)"
    and v1: "a v = 1" and w1: "a w = 1"
  shows "v = w"
proof (rule ccontr)
  assume ne: "v \<noteq> w"
  let ?cx = "make_ctx spec"
  let ?counted = "counted_work ?cx (get_or (c_data c) no_data)"
  from comp have cm: "compile_model ?cx (get_or (sp_constraints spec) []) = Inr m"
    by (simp add: compiled_model_def)
  from compile_model_rows[OF cm c] obtain i em where
    em: "compile_constraint ?cx (i, c) = Inr em" and sub: "set (fst (snd em)) \<subseteq> set (m_rows m)"
    by blast
  have cxs: "cx_spec ?cx = spec_after spec" "cx_days ?cx = s_days (sp_sets spec)"
    by (simp_all add: make_ctx_def)
  from compile_constraint_exactly_one[OF em kind]
  have ce: "compile_exactly_one ?cx (get_or (c_data c) no_data)
              (select_employees_by_scope spec (get_or (c_scope c) no_scope)) = Inr em"
    by (simp add: cxs select_spec_after)
  from d have d': "d < length (cx_days ?cx)" by (simp add: cxs)
  from compile_exactly_one_row[OF ce e d'] obtain r where
    r: "r \<in> set (fst (snd em))" "exactly_one_row ?cx ?counted e d = Inr r" by blast
  from feas have rows: "\<forall>r\<in>set (m_rows m). row_holds a r"
    and bnds: "\<forall>b\<in>set (m_vars m). in_bounds a b"
    by (simp_all add: feasible_def list_all_iff)
  from r(1) sub rows have "row_holds a r" by auto
  from exactly_one_row_sem[OF r(2) this] have total: "sum_list (map a (day_vars ?cx ?counted e d)) = 1" .
  have nn: "\<forall>x\<in>set (day_vars ?cx ?counted e d). 0 \<le> a x"
  proof
    fix x assume "x \<in> set (day_vars ?cx ?counted e d)"
    from exactly_one_row_declared[OF r(2) this] compile_model_vars[OF cm] bnds
    have "in_bounds a (x, 0, 1)" by auto
    then show "0 \<le> a x" by (simp add: in_bounds_def)
  qed
  from two_members_le_sum_list[OF nn v w ne] total v1 w1 show False by simp
qed

lemma two_shift_ctx: "make_ctx two_shift_spec =
  \<lparr>cx_spec = two_shift_spec, cx_employees = [''P1''], cx_days = [''D1''],
   cx_sites = [''SITE_DEFAULT''], cx_shift_defs = [(''OFF'', default_off)],
   cx_work_shifts = [''M'', ''N''], cx_demand = []\<rparr>"
  by (simp add: make_ctx_def two_shift_spec_def local_shift_defs_def is_work_shift_def get_or_def
      default_off_def spec_after_def)

lemma sel_all_two: "select_employees_by_scope two_shift_spec no_scope = [''P1'']"
  by (simp add: select_employees_by_scope_def Let_def no_scope_def two_shift_spec_def normalize_list_def
      filter_groups_def filter_any_def filter_all_def filter_in_def start_set_def)

lemma two_shift_model: "compiled_model two_shift_spec =
  Inr \<lparr>m_vars = [(Off ''P1'' 0, 0, 1), (X ''P1'' 0 ''M'' ''SITE_DEFAULT'', 0, 1), (X ''P1'' 0 ''N'' ''SITE_DEFAULT'', 0, 1)],
       m_rows = [mk_row (ladd (lvar (Off ''P1'' 0)) (lsum [lsum [lvar (X ''P1'' 0 ''M'' ''SITE_DEFAULT'')]])) REq (lconst 1)],
       m_objective = lconst 0\<rparr>"
proof -
  have c: "sp_constraints two_shift_spec = Some [exactly_one_m]" by (simp add: two_shift_spec_def)
  have k: "compile_constraint (make_ctx two_shift_spec) (0, exactly_one_m) =
     Inr ([], [mk_row (ladd (lvar (Off ''P1'' 0)) (lsum [lsum [lvar (X ''P1'' 0 ''M'' ''SITE_DEFAULT'')]])) REq (lconst 1)], [])"
    unfolding two_shift_ctx
    by (simp add: compile_constraint_def exactly_one_m_def ebind_def subscript_def get_or_def sel_all_two
      compile_exactly_one_def counted_work_def no_data_def exactly_one_row_def off_get_def works_shift_def
      x_get_def only_rows_def)
  show ?thesis
    unfolding compiled_model_def c
    by (simp add: compile_model_def get_or_def enumerate_eq_zip k ebind_def merge_emitted_def)
       (simp add: two_shift_ctx declared_vars_def)
qed

lemma two_shift_day_vars:
  "day_vars (make_ctx two_shift_spec) (cx_work_shifts (make_ctx two_shift_spec)) ''P1'' 0 =
     [Off ''P1'' 0, X ''P1'' 0 ''M'' ''SITE_DEFAULT'', X ''P1'' 0 ''N'' ''SITE_DEFAULT'']"
  unfolding two_shift_ctx by (simp add: day_vars_def)

text \<open>
  C3 as stated fails: the constraint of \<open>two_shift_spec\<close> counts only M, and the
  assignment with both x variables of the day at one is feasible for the compiled model,
  so two variables among off and the x of all work shifts equal one.
\<close>

theorem exactly_one_all_shifts_counterexample:
  "feasible_for two_shift_spec both_shifts
   \<and> exactly_one_m \<in> set (get_or (sp_constraints two_shift_spec) [])
   \<and> ''P1'' \<in> set (select_employees_by_scope two_shift_spec (get_or (c_scope exactly_one_m) no_scope))
   \<and> X ''P1'' 0 ''M'' ''SITE_DEFAULT''
        \<in> set (day_vars (make_ctx two_shift_spec) (cx_work_shifts (make_ctx two_shift_spec)) ''P1'' 0)
   \<and> X ''P1'' 0 ''N'' ''SITE_DEFAULT''
        \<in> set (day_vars (make_ctx two_shift_spec) (cx_work_shifts (make_ctx two_shift_spec)) ''P1'' 0)
   \<and> both_shifts (X ''P1'' 0 ''M'' ''SITE_DEFAULT'') = 1
   \<and> both_shifts (X ''P1'' 0 ''N'' ''SITE_DEFAULT'') = 1
   \<and> X ''P1'' 0 ''M'' ''SITE_DEFAULT'' \<noteq> X ''P1'' 0 ''N'' ''SITE_DEFAULT''"
proof -
  have "feasible_for two_shift_spec both_shifts"
    by (simp add: feasible_for_def two_shift_model feasible_def in_bounds_def rel_holds_def)
  moreover have "exactly_one_m \<in> set (get_or (sp_constraints two_shift_spec) [])"
    by (simp add: two_shift_spec_def get_or_def)
  moreover have "''P1'' \<in> set (select_employees_by_scope two_shift_spec (get_or (c_scope exactly_one_m) no_scope))"
    by (simp add: exactly_one_m_def get_or_def sel_all_two)
  ultimately show ?thesis by (simp add: two_shift_day_vars)
qed

theorem exactly_one_counted_shifts_witness:
  "compiled_model two_shift_spec \<noteq> Inl KeyError
   \<and> feasible_for two_shift_spec only_m
   \<and> exactly_one_m \<in> set (get_or (sp_constraints two_shift_spec) [])
   \<and> c_kind exactly_one_m = Some ''exactly_one_assignment_per_day''
   \<and> ''P1'' \<in> set (select_employees_by_scope two_shift_spec (get_or (c_scope exactly_one_m) no_scope))
   \<and> 0 < length (s_days (sp_sets two_shift_spec))
   \<and> set (day_vars (make_ctx two_shift_spec)
             (counted_work (make_ctx two_shift_spec) (get_or (c_data exactly_one_m) no_data)) ''P1'' 0)
        = {Off ''P1'' 0, X ''P1'' 0 ''M'' ''SITE_DEFAULT''}
   \<and> only_m (X ''P1'' 0 ''M'' ''SITE_DEFAULT'') = 1
   \<and> only_m (Off ''P1'' 0) \<noteq> 1"
proof -
  obtain m where m: "compiled_model two_shift_spec = Inr m" using two_shift_model by blast
  have f: "feasible_for two_shift_spec only_m"
    by (simp add: feasible_for_def two_shift_model feasible_def in_bounds_def rel_holds_def)
  then have fm: "feasible m only_m" by (simp add: feasible_for_def m)
  have c: "exactly_one_m \<in> set (get_or (sp_constraints two_shift_spec) [])"
    by (simp add: two_shift_spec_def get_or_def)
  have k: "c_kind exactly_one_m = Some ''exactly_one_assignment_per_day''"
    by (simp add: exactly_one_m_def)
  have e: "''P1'' \<in> set (select_employees_by_scope two_shift_spec (get_or (c_scope exactly_one_m) no_scope))"
    by (simp add: exactly_one_m_def get_or_def sel_all_two)
  have d: "0 < length (s_days (sp_sets two_shift_spec))" by (simp add: two_shift_spec_def)
  have dv: "day_vars (make_ctx two_shift_spec)
             (counted_work (make_ctx two_shift_spec) (get_or (c_data exactly_one_m) no_data)) ''P1'' 0
        = [Off ''P1'' 0, X ''P1'' 0 ''M'' ''SITE_DEFAULT'']"
    unfolding two_shift_ctx
    by (simp add: day_vars_def counted_work_def exactly_one_m_def get_or_def no_data_def)
  have "only_m (Off ''P1'' 0) = 1 \<Longrightarrow> Off ''P1'' 0 = X ''P1'' 0 ''M'' ''SITE_DEFAULT''"
    by (rule exactly_one_counted_shifts[OF m c k e d fm, of "Off ''P1'' 0" "X ''P1'' 0 ''M'' ''SITE_DEFAULT''"])
       (simp_all add: dv)
  then have "only_m (Off ''P1'' 0) \<noteq> 1" by auto
  with m f c k e d dv show ?thesis by simp
qed

section \<open>Window constraints\<close>
















section \<open>Forbidden shift sequences\<close>

lemma forbid_row_good:
  assumes "has_both_keys p" "\<not> non_work_pair cx p" "e \<in> set (cx_employees cx)"
    "Suc d < length (cx_days cx)"
  shows "\<exists>r. forbid_row cx e d p = Inr r"
proof -
  from assms(1) obtain a b where ab: "fp_prev_shift p = Some a" "fp_next_shift p = Some b"
    by (auto simp: has_both_keys_def)
  with assms(2) have w: "a \<in> set (cx_work_shifts cx)" "b \<in> set (cx_work_shifts cx)"
    by (auto simp: non_work_pair_def)
  from assms(4) have d: "d < length (cx_days cx)" by simp
  show ?thesis
    using works_shift_ok[OF assms(3) d w(1)] works_shift_ok[OF assms(3) assms(4) w(2)]
    by (simp add: forbid_row_def ab w subscript_def ebind_def)
qed

lemma forbid_row_bad:
  assumes "non_work_pair cx p"
  shows "forbid_row cx e d p = Inl ValueError"
  using assms
  by (auto simp: non_work_pair_def forbid_row_def subscript_def ebind_def split: option.splits)

lemma traverse_Cons_error: "f x = Inl err \<Longrightarrow> traverse f (x # xs) = Inl err"
  by simp

lemma forbid_pairs_raise:
  assumes keys: "list_all has_both_keys ps" and bad: "list_ex (non_work_pair cx) ps"
    and e: "e \<in> set (cx_employees cx)" and d: "Suc d < length (cx_days cx)"
  shows "traverse (forbid_row cx e d) ps = Inl ValueError"
proof -
  from bad have "\<exists>p\<in>set ps. non_work_pair cx p" by (simp add: list_ex_iff)
  from split_list_first_prop[OF this] obtain pre p post where
    ps: "ps = pre @ p # post" and p: "non_work_pair cx p" and pre: "\<forall>q\<in>set pre. \<not> non_work_pair cx q"
    by blast
  have g: "\<exists>r. forbid_row cx e d q = Inr r" if "q \<in> set pre" for q
  proof -
    from that keys ps have "has_both_keys q" by (auto simp: list_all_iff)
    from forbid_row_good[OF this _ e d] pre that show ?thesis by blast
  qed
  have b: "forbid_row cx e d p = Inl ValueError" by (rule forbid_row_bad[OF p])
  show ?thesis
    unfolding ps
    by (rule traverse_first_error[where f = "forbid_row cx e d" and b = p]) (auto simp: g b)
qed

lemma compile_forbid_raises:
  assumes pairs: "cd_forbidden_pairs cdat = Some ps"
    and keys: "list_all has_both_keys ps" and bad: "list_ex (non_work_pair cx) ps"
    and emps: "emps \<noteq> []" "set emps \<subseteq> set (cx_employees cx)"
    and days: "2 \<le> length (cx_days cx)"
  shows "compile_forbid cx cdat emps = Inl ValueError"
proof -
  from emps obtain e rest where er: "emps = e # rest" and e: "e \<in> set (cx_employees cx)"
    by (cases emps) auto
  from days have d: "Suc 0 < length (cx_days cx)" by simp
  from days obtain ds where ds: "[0..<length (cx_days cx) - Suc 0] = 0 # ds"
    by (cases "[0..<length (cx_days cx) - Suc 0]") (auto simp: upt_rec)
  have "traverse (forbid_row cx e 0) ps = Inl ValueError"
    by (rule forbid_pairs_raise[OF keys bad e d])
  then show ?thesis
    by (simp add: compile_forbid_def er ds pairs get_or_def ebind_def)
qed

lemma traverse_const_nil: "traverse (\<lambda>e. Inr []) emps = Inr (replicate (length emps) [])"
  by (induction emps) simp_all

lemma concat_replicate_nil: "concat (replicate n []) = []"
  by (induction n) simp_all

lemma compile_forbid_nothing:
  assumes "emps = [] \<or> length (cx_days cx) < 2"
  shows "compile_forbid cx cdat emps = Inr ([], [], [])"
proof (cases "emps = []")
  case True
  then show ?thesis by (simp add: compile_forbid_def ebind_def only_rows_def)
next
  case False
  with assms have "[0..<length (cx_days cx) - 1] = []" by simp
  then show ?thesis
    by (simp add: compile_forbid_def ebind_def only_rows_def traverse_const_nil concat_replicate_nil)
qed

lemma traverse_append_Inr:
  assumes "traverse f xs = Inr bs" "traverse f ys = Inr cs"
  shows "traverse f (xs @ ys) = Inr (bs @ cs)"
  using assms by (simp add: traverse_Inr_iff list_all2_appendI)

text \<open>
  C5 (amended): let the demand and the constraints before a \<open>forbid_shift_sequences\<close>
  constraint compile, and let the constraint have its id and type. If every forbidden
  pair has both shifts and one of them names a shift that is not a work shift, the scope
  selects at least one employee, all of them employees of the sets, and the horizon has at
  least two days, then \<open>compile_and_solve\<close> raises ValueError. If the scope selects no
  employee or the horizon has fewer than two days, no pair is looked at: the constraint
  compiles, emits nothing, and the model is produced whenever the constraints after it
  compile.
\<close>

theorem forbid_non_work_shift_raises:
  assumes cs: "get_or (sp_constraints spec) [] = pre @ c # post"
    and dem: "traverse (compile_demand (make_ctx spec)) (cx_demand (make_ctx spec)) = Inr drows"
    and before: "traverse (compile_constraint (make_ctx spec)) (enumerate 0 pre) = Inr ems"
    and kind: "c_kind c = Some ''forbid_shift_sequences''"
    and idt: "c_id c \<noteq> None" "c_type c \<noteq> None"
  shows "(\<forall>ps. cd_forbidden_pairs (get_or (c_data c) no_data) = Some ps
            \<and> list_all has_both_keys ps
            \<and> list_ex (non_work_pair (make_ctx spec)) ps
            \<and> select_employees_by_scope spec (get_or (c_scope c) no_scope) \<noteq> []
            \<and> set (select_employees_by_scope spec (get_or (c_scope c) no_scope))
                 \<subseteq> set (s_employees (sp_sets spec))
            \<and> 2 \<le> length (s_days (sp_sets spec))
          \<longrightarrow> snd (compile_and_solve backend spec max_time workers) = Inl ValueError)
       \<and> (select_employees_by_scope spec (get_or (c_scope c) no_scope) = []
            \<or> length (s_days (sp_sets spec)) < 2
          \<longrightarrow> compile_constraint (make_ctx spec) (length pre, c) = Inr ([], [], [])
              \<and> (\<forall>ems'. traverse (compile_constraint (make_ctx spec))
                           (enumerate (Suc (length pre)) post) = Inr ems'
                    \<longrightarrow> (\<exists>m. compiled_model spec = Inr m)))"
proof (intro conjI allI impI)
  fix ps
  assume h: "cd_forbidden_pairs (get_or (c_data c) no_data) = Some ps
            \<and> list_all has_both_keys ps
            \<and> list_ex (non_work_pair (make_ctx spec)) ps
            \<and> select_employees_by_scope spec (get_or (c_scope c) no_scope) \<noteq> []
            \<and> set (select_employees_by_scope spec (get_or (c_scope c) no_scope))
                 \<subseteq> set (s_employees (sp_sets spec))
            \<and> 2 \<le> length (s_days (sp_sets spec))"
  then have pairs: "cd_forbidden_pairs (get_or (c_data c) no_data) = Some ps"
    and keys: "list_all has_both_keys ps"
    and bad: "list_ex (non_work_pair (make_ctx spec)) ps"
    and emps: "select_employees_by_scope spec (get_or (c_scope c) no_scope) \<noteq> []"
      "set (select_employees_by_scope spec (get_or (c_scope c) no_scope)) \<subseteq> set (s_employees (sp_sets spec))"
    and days: "2 \<le> length (s_days (sp_sets spec))" by simp_all
  let ?cx = "make_ctx spec"
  have cx: "cx_spec ?cx = spec_after spec" "cx_employees ?cx = s_employees (sp_sets spec)"
    "cx_days ?cx = s_days (sp_sets spec)" by (simp_all add: make_ctx_def)
  have "compile_forbid ?cx (get_or (c_data c) no_data)
          (select_employees_by_scope spec (get_or (c_scope c) no_scope)) = Inl ValueError"
    by (rule compile_forbid_raises[OF pairs keys bad emps(1)]) (simp_all add: cx emps days)
  then have cc: "compile_constraint ?cx (length pre, c) = Inl ValueError"
    using kind idt
    by (auto simp: compile_constraint_def subscript_def ebind_def cx select_spec_after Let_def)
  have "enumerate 0 (pre @ c # post) = enumerate 0 pre @ (length pre, c) # enumerate (Suc (length pre)) post"
    by (simp add: enumerate_append_eq)
  moreover have "\<exists>y. compile_constraint ?cx x = Inr y" if "x \<in> set (enumerate 0 pre)" for x
    using traverse_Inr_mem[OF before that] by blast
  ultimately have "traverse (compile_constraint ?cx) (enumerate 0 (pre @ c # post)) = Inl ValueError"
    using traverse_first_error[of "enumerate 0 pre" "compile_constraint ?cx" "(length pre, c)" ValueError]
      cc by simp
  then have "compile_model ?cx (get_or (sp_constraints spec) []) = Inl ValueError"
    by (simp add: compile_model_def dem cs ebind_def)
  then show "snd (compile_and_solve backend spec max_time workers) = Inl ValueError"
    by (simp add: compile_and_solve_def ebind_def)
next
  let ?cx = "make_ctx spec"
  assume n: "select_employees_by_scope spec (get_or (c_scope c) no_scope) = []
            \<or> length (s_days (sp_sets spec)) < 2"
  have cx: "cx_spec ?cx = spec_after spec" "cx_days ?cx = s_days (sp_sets spec)"
    by (simp_all add: make_ctx_def)
  have "compile_forbid ?cx (get_or (c_data c) no_data)
          (select_employees_by_scope spec (get_or (c_scope c) no_scope)) = Inr ([], [], [])"
    by (rule compile_forbid_nothing) (use n in \<open>simp add: cx\<close>)
  then show cc: "compile_constraint ?cx (length pre, c) = Inr ([], [], [])"
    using kind idt
    by (auto simp: compile_constraint_def subscript_def ebind_def cx select_spec_after Let_def)
  fix ems'
  assume after: "traverse (compile_constraint ?cx) (enumerate (Suc (length pre)) post) = Inr ems'"
  have en: "enumerate 0 (pre @ c # post) = enumerate 0 pre @ (length pre, c) # enumerate (Suc (length pre)) post"
    by (simp add: enumerate_append_eq)
  have "traverse (compile_constraint ?cx) ((length pre, c) # enumerate (Suc (length pre)) post)
          = Inr (([], [], []) # ems')"
    by (simp add: cc after)
  from traverse_append_Inr[OF before this]
  have "traverse (compile_constraint ?cx) (enumerate 0 (pre @ c # post)) = Inr (ems @ ([], [], []) # ems')"
    by (simp add: en)
  then show "\<exists>m. compiled_model spec = Inr m"
    by (simp add: compiled_model_def compile_model_def dem cs ebind_def Let_def)
qed

lemma forbid_ctx: "make_ctx (forbid_spec days) =
  \<lparr>cx_spec = forbid_spec days, cx_employees = [''P1''], cx_days = days,
   cx_sites = [''SITE_DEFAULT''],
   cx_shift_defs = [(''OFF'', default_off),
        (''M'', \<lparr>sd_start = Some ''08:00'', sd_end = Some ''16:00'', sd_minutes = Some 480,
                 sd_is_work = None\<rparr>)],
   cx_work_shifts = [''M''], cx_demand = []\<rparr>"
  by (simp add: make_ctx_def forbid_spec_def local_shift_defs_def is_work_shift_def get_or_def
      default_off_def spec_after_def)

lemma forbid_sel: "select_employees_by_scope (forbid_spec days) no_scope = [''P1'']"
  by (simp add: select_employees_by_scope_def Let_def no_scope_def forbid_spec_def normalize_list_def
      filter_groups_def filter_any_def filter_all_def filter_in_def start_set_def)

lemma forbid_bad_pair:
  "list_ex (non_work_pair (make_ctx (forbid_spec days)))
     [\<lparr>fp_prev_shift = Some ''OFF'', fp_next_shift = Some ''M''\<rparr>]"
  unfolding forbid_ctx by (simp add: non_work_pair_def)

lemma one_day_model: "compiled_model (forbid_spec [''D1'']) =
  Inr \<lparr>m_vars = [(Off ''P1'' 0, 0, 1), (X ''P1'' 0 ''M'' ''SITE_DEFAULT'', 0, 1)],
       m_rows = [], m_objective = lconst 0\<rparr>"
proof -
  have c: "sp_constraints (forbid_spec [''D1'']) = Some [forbid_off]" by (simp add: forbid_spec_def)
  have k: "compile_constraint (make_ctx (forbid_spec [''D1''])) (0, forbid_off) = Inr ([], [], [])"
    unfolding forbid_ctx
    by (simp add: compile_constraint_def forbid_off_def ebind_def subscript_def get_or_def forbid_sel
      compile_forbid_def only_rows_def)
  show ?thesis
    unfolding compiled_model_def c
    by (simp add: compile_model_def get_or_def enumerate_eq_zip k ebind_def merge_emitted_def)
       (simp add: forbid_ctx declared_vars_def)
qed

lemma one_day_materialize:
  "materialize (make_ctx (forbid_spec [''D1''])) all_ones 0 =
     Inr (Res_ok 0
        [(''D1'', \<lparr>ds_sites = [(''SITE_DEFAULT'', [(''M'', [''P1''])])], ds_off = [''P1'']\<rparr>)]
        \<lparr>mt_minutes_worked = [(''P1'', 480)], mt_shift_counts = [(''P1'', [(''M'', 1)])]\<rparr>)"
  unfolding forbid_ctx
  by (simp add: materialize_def ebind_def subscript_def get_or_def enumerate_eq_zip empty_day_def
      fill_day_def shift_minutes_def employee_metrics_def day_shift_pairs_def works_shift_def x_get_def)

text \<open>
  C5 as stated fails on a horizon of one day: the pair (OFF, M) is never looked at, the
  model is produced, and the call returns a result.
\<close>

theorem forbid_single_day_counterexample:
  "forbid_off \<in> set (get_or (sp_constraints (forbid_spec [''D1''])) [])
   \<and> c_kind forbid_off = Some ''forbid_shift_sequences''
   \<and> cd_forbidden_pairs (get_or (c_data forbid_off) no_data)
        = Some [\<lparr>fp_prev_shift = Some ''OFF'', fp_next_shift = Some ''M''\<rparr>]
   \<and> ''OFF'' \<notin> set (cx_work_shifts (make_ctx (forbid_spec [''D1''])))
   \<and> compiled_model (forbid_spec [''D1'']) =
        Inr \<lparr>m_vars = [(Off ''P1'' 0, 0, 1), (X ''P1'' 0 ''M'' ''SITE_DEFAULT'', 0, 1)],
             m_rows = [], m_objective = lconst 0\<rparr>
   \<and> snd (compile_and_solve refusing_backend (forbid_spec [''D1'']) () 8) = Inr Res_no_solution
   \<and> snd (compile_and_solve eager_backend (forbid_spec [''D1'']) () 8) =
        Inr (Res_ok 0
          [(''D1'', \<lparr>ds_sites = [(''SITE_DEFAULT'', [(''M'', [''P1''])])], ds_off = [''P1'']\<rparr>)]
          \<lparr>mt_minutes_worked = [(''P1'', 480)], mt_shift_counts = [(''P1'', [(''M'', 1)])]\<rparr>)"
proof -
  have s: "''OFF'' \<in> set (s_shifts (sp_sets (forbid_spec [''D1''])))"
    "get_or (sp_constraints (forbid_spec [''D1''])) [] = [forbid_off]"
    "\<not> unsupported_kind forbid_off"
    by (simp_all add: forbid_spec_def get_or_def unsupported_kind_def forbid_off_def ALLOWED_KINDS_def)
  have m: "compile_model (make_ctx (forbid_spec [''D1''])) [forbid_off] =
        Inr \<lparr>m_vars = [(Off ''P1'' 0, 0, 1), (X ''P1'' 0 ''M'' ''SITE_DEFAULT'', 0, 1)],
             m_rows = [], m_objective = lconst 0\<rparr>"
    using one_day_model by (simp add: compiled_model_def s)
  have f: "feasible \<lparr>m_vars = [(Off ''P1'' 0, 0, 1), (X ''P1'' 0 ''M'' ''SITE_DEFAULT'', 0, 1)],
             m_rows = [], m_objective = lconst 0\<rparr> all_ones"
    by (simp add: feasible_def in_bounds_def)
  have r1: "snd (compile_and_solve refusing_backend (forbid_spec [''D1'']) () 8) = Inr Res_no_solution"
    by (simp add: compile_and_solve_def s m ebind_def refusing_backend_def)
  have r2: "snd (compile_and_solve eager_backend (forbid_spec [''D1'']) () 8) =
        Inr (Res_ok 0
          [(''D1'', \<lparr>ds_sites = [(''SITE_DEFAULT'', [(''M'', [''P1''])])], ds_off = [''P1'']\<rparr>)]
          \<lparr>mt_minutes_worked = [(''P1'', 480)], mt_shift_counts = [(''P1'', [(''M'', 1)])]\<rparr>)"
    by (simp add: compile_and_solve_def s m ebind_def eager_backend_def f one_day_materialize)
  have w: "''OFF'' \<notin> set (cx_work_shifts (make_ctx (forbid_spec [''D1''])))"
    unfolding forbid_ctx by simp
  show ?thesis
    using r1 r2 w one_day_model by (simp add: s) (simp add: forbid_off_def get_or_def)
qed

theorem forbid_non_work_shift_raises_witness:
  "get_or (sp_constraints (forbid_spec [''D1'', ''D2''])) [] = [] @ forbid_off # []
   \<and> list_all has_both_keys [\<lparr>fp_prev_shift = Some ''OFF'', fp_next_shift = Some ''M''\<rparr>]
   \<and> list_ex (non_work_pair (make_ctx (forbid_spec [''D1'', ''D2''])))
        [\<lparr>fp_prev_shift = Some ''OFF'', fp_next_shift = Some ''M''\<rparr>]
   \<and> select_employees_by_scope (forbid_spec [''D1'', ''D2'']) (get_or (c_scope forbid_off) no_scope)
        = [''P1'']
   \<and> 2 \<le> length (s_days (sp_sets (forbid_spec [''D1'', ''D2''])))
   \<and> snd (compile_and_solve eager_backend (forbid_spec [''D1'', ''D2'']) () 8) = Inl ValueError
   \<and> length (s_days (sp_sets (forbid_spec [''D1'']))) < 2
   \<and> compile_constraint (make_ctx (forbid_spec [''D1''])) (0, forbid_off) = Inr ([], [], [])
   \<and> (\<exists>m. compiled_model (forbid_spec [''D1'']) = Inr m)"
proof -
  let ?sp = "forbid_spec [''D1'', ''D2'']"
  let ?s1 = "forbid_spec [''D1'']"
  have cs: "get_or (sp_constraints (forbid_spec days)) [] = [] @ forbid_off # []" for days
    by (simp add: forbid_spec_def get_or_def)
  have dem: "traverse (compile_demand (make_ctx (forbid_spec days))) (cx_demand (make_ctx (forbid_spec days))) = Inr []"
    for days unfolding forbid_ctx by simp
  have before: "traverse (compile_constraint (make_ctx (forbid_spec days))) (enumerate 0 []) = Inr []"
    for days by simp
  have kind: "c_kind forbid_off = Some ''forbid_shift_sequences''"
    and idt: "c_id forbid_off \<noteq> None" "c_type forbid_off \<noteq> None"
    and pairs: "cd_forbidden_pairs (get_or (c_data forbid_off) no_data)
        = Some [\<lparr>fp_prev_shift = Some ''OFF'', fp_next_shift = Some ''M''\<rparr>]"
    by (simp_all add: forbid_off_def get_or_def)
  have keys: "list_all has_both_keys [\<lparr>fp_prev_shift = Some ''OFF'', fp_next_shift = Some ''M''\<rparr>]"
    by (simp add: has_both_keys_def)
  have sel: "select_employees_by_scope ?sp (get_or (c_scope forbid_off) no_scope) = [''P1'']"
    by (simp add: forbid_off_def get_or_def forbid_sel)
  have emps: "select_employees_by_scope ?sp (get_or (c_scope forbid_off) no_scope) \<noteq> []"
    "set (select_employees_by_scope ?sp (get_or (c_scope forbid_off) no_scope))
       \<subseteq> set (s_employees (sp_sets ?sp))"
    by (simp_all add: sel) (simp add: forbid_spec_def)
  have days: "2 \<le> length (s_days (sp_sets ?sp))" by (simp add: forbid_spec_def)
  have one: "length (s_days (sp_sets ?s1)) < 2" by (simp add: forbid_spec_def)
  have after: "traverse (compile_constraint (make_ctx ?s1)) (enumerate (Suc (length ([]::cons list))) []) = Inr []"
    by simp
  have r: "snd (compile_and_solve eager_backend ?sp () 8) = Inl ValueError"
    using forbid_non_work_shift_raises[OF cs dem before kind idt, of "[''D1'', ''D2'']" eager_backend "()" 8]
      pairs keys forbid_bad_pair emps days by blast
  have n: "compile_constraint (make_ctx ?s1) (length ([]::cons list), forbid_off) = Inr ([], [], [])
       \<and> (\<exists>m. compiled_model ?s1 = Inr m)"
    using forbid_non_work_shift_raises[OF cs dem before kind idt, of "[''D1'']" eager_backend "()" 8]
      one after by blast
  from r n cs keys forbid_bad_pair sel days one show ?thesis by simp
qed

section \<open>The target of fair distribution\<close>












section \<open>Minutes worked\<close>

lemma map_of_dict_set: "map_of (dict_set k v m) = (map_of m)(k \<mapsto> v)"
  by (induction m) (auto simp: fun_eq_iff)

lemma keys_dict_set: "fst ` set (dict_set k v m) = insert k (fst ` set m)"
  by (induction m) auto

lemma keys_fold_dict_set: "fst ` set (fold (\<lambda>s c. dict_set s z c) ws m) = set ws \<union> fst ` set m"
  by (induction ws arbitrary: m) (auto simp: keys_dict_set)

lemma shift_minutes_lookup:
  assumes "shift_minutes cx = Inr sm" "s \<in> set (cx_work_shifts cx)"
  shows "map_of sm s = Some (minutes_of cx s)"
proof -
  from assms(1) have l: "list_all2 (\<lambda>s r. ebind (subscript (map_of (cx_shift_defs cx) s))
                      (\<lambda>sd. Inr (s, get_or (sd_minutes sd) 0)) = Inr r) (cx_work_shifts cx) sm"
    by (simp add: shift_minutes_def traverse_Inr_iff)
  have "list_all2 (\<lambda>s r. r = (s, minutes_of cx s)) (cx_work_shifts cx) sm"
    by (rule list_all2_mono[OF l])
       (auto simp: ebind_Inr_iff subscript_def minutes_of_def split: option.splits)
  then have sm: "sm = map (\<lambda>s. (s, minutes_of cx s)) (cx_work_shifts cx)"
    by (induction rule: list_all2_induct) auto
  have "map_of (map (\<lambda>s. (s, f s)) ws) s = Some (f s)" if "s \<in> set ws" for f :: "string \<Rightarrow> int" and ws
    using that by (induction ws) auto
  with assms(2) show ?thesis by (simp add: sm)
qed

lemma tally_sum:
  assumes sm: "\<And>s. s \<in> set (cx_work_shifts cx) \<Longrightarrow> map_of sm s = Some (minutes_of cx s)"
    and e: "e \<in> set (cx_employees cx)"
    and ps: "\<And>d s. (d, s) \<in> set ps \<Longrightarrow> d < length (cx_days cx) \<and> s \<in> set (cx_work_shifts cx)"
    and keys: "set (cx_work_shifts cx) \<subseteq> fst ` set counts"
  shows "\<exists>counts'. tally cx a sm e ps (mins, counts) =
           Inr (mins + sum_list (map (\<lambda>ds. if works_value cx a e (fst ds) (snd ds) \<noteq> 0
                                         then minutes_of cx (snd ds) else 0) ps), counts')"
  using ps keys
proof (induction ps arbitrary: mins counts)
  case Nil
  then show ?case by simp
next
  case (Cons p ps)
  obtain d s where p: "p = (d, s)" by (cases p)
  from Cons.prems(1)[of d s] p have ds: "d < length (cx_days cx)" "s \<in> set (cx_work_shifts cx)"
    by auto
  obtain ex where w: "works_shift cx e d s = Inr ex"
    using works_shift_ok[OF e ds] by blast
  have v: "leval a ex = works_value cx a e d s"
    using works_shift_eval[OF w, of a] by (simp add: works_value_def)
  have rest: "\<And>d s. (d, s) \<in> set ps \<Longrightarrow> d < length (cx_days cx) \<and> s \<in> set (cx_work_shifts cx)"
    using Cons.prems(1) by auto
  show ?case
  proof (cases "works_value cx a e d s = 0")
    case True
    from Cons.IH[OF rest Cons.prems(2), of mins] obtain counts' where
      "tally cx a sm e ps (mins, counts) =
           Inr (mins + sum_list (map (\<lambda>ds. if works_value cx a e (fst ds) (snd ds) \<noteq> 0
                                         then minutes_of cx (snd ds) else 0) ps), counts')"
      by blast
    then show ?thesis using True by (simp add: p w v ebind_def)
  next
    case False
    from ds(2) Cons.prems(2) obtain c where c: "map_of counts s = Some c"
      by (metis (no_types, lifting) domD dom_map_of_conv_image_fst subsetD)
    have k: "set (cx_work_shifts cx) \<subseteq> fst ` set (dict_set s (c + 1) counts)"
      using Cons.prems(2) by (auto simp: keys_dict_set)
    from Cons.IH[OF rest k, of "mins + minutes_of cx s"] obtain counts' where
      "tally cx a sm e ps (mins + minutes_of cx s, dict_set s (c + 1) counts) =
           Inr (mins + minutes_of cx s + sum_list (map (\<lambda>ds. if works_value cx a e (fst ds) (snd ds) \<noteq> 0
                                         then minutes_of cx (snd ds) else 0) ps), counts')"
      by blast
    then show ?thesis using False
      by (simp add: p w v ebind_def subscript_def sm[OF ds(2)] c)
  qed
qed

lemma employee_metrics_sum:
  assumes "shift_minutes cx = Inr sm" "e \<in> set (cx_employees cx)"
  shows "\<exists>counts'. employee_metrics cx a sm e = Inr (counted_minutes cx a e, counts')"
proof -
  have keys: "set (cx_work_shifts cx) \<subseteq> fst ` set (fold (\<lambda>s c. dict_set s 0 c) (cx_work_shifts cx) [])"
    by (simp add: keys_fold_dict_set)
  have ps: "\<And>d s. (d, s) \<in> set (day_shift_pairs cx) \<Longrightarrow> d < length (cx_days cx) \<and> s \<in> set (cx_work_shifts cx)"
    by (auto simp: day_shift_pairs_def)
  from tally_sum[OF shift_minutes_lookup[OF assms(1)] assms(2) ps keys,
      where mins = 0 and a = a]
  show ?thesis by (simp add: employee_metrics_def counted_minutes_def)
qed

lemma map_of_fold_dict_set:
  assumes "\<And>r. r \<in> set rs \<Longrightarrow> g r = h (fst r)"
  shows "map_of (fold (\<lambda>r m. dict_set (fst r) (g r) m) rs m0) k =
           (if k \<in> fst ` set rs then Some (h k) else map_of m0 k)"
  using assms
proof (induction rs arbitrary: m0)
  case Nil
  then show ?case by simp
next
  case (Cons r rs)
  have "map_of (fold (\<lambda>r m. dict_set (fst r) (g r) m) rs (dict_set (fst r) (g r) m0)) k =
           (if k \<in> fst ` set rs then Some (h k) else map_of (dict_set (fst r) (g r) m0) k)"
    by (rule Cons.IH) (use Cons.prems in auto)
  then show ?case using Cons.prems[of r] by (auto simp: map_of_dict_set)
qed

lemma materialize_minutes:
  assumes m: "materialize cx a obj = Inr res" and e: "e \<in> set (cx_employees cx)"
  shows "\<exists>sch mt. res = Res_ok obj sch mt
           \<and> map_of (mt_minutes_worked mt) e = Some (counted_minutes cx a e)"
proof -
  from m obtain sch sm rs where sm: "shift_minutes cx = Inr sm"
    and rs: "traverse (\<lambda>e. ebind (employee_metrics cx a sm e) (\<lambda>r. Inr (e, r))) (cx_employees cx) = Inr rs"
    and res: "res = Res_ok obj sch
              \<lparr>mt_minutes_worked = fold (\<lambda>r m. dict_set (fst r) (fst (snd r)) m) rs [],
               mt_shift_counts = fold (\<lambda>r m. dict_set (fst r) (snd (snd r)) m) rs []\<rparr>"
    by (auto simp: materialize_def ebind_Inr_iff)
  from rs have l: "list_all2 (\<lambda>e r. ebind (employee_metrics cx a sm e) (\<lambda>r. Inr (e, r)) = Inr r)
                     (cx_employees cx) rs"
    by (simp add: traverse_Inr_iff)
  have each: "fst r \<in> set (cx_employees cx) \<and> fst (snd r) = counted_minutes cx a (fst r)"
    if "r \<in> set rs" for r
  proof -
    from that obtain i where i: "i < length rs" "rs ! i = r" by (auto simp: in_set_conv_nth)
    from l i have "i < length (cx_employees cx)"
      and "ebind (employee_metrics cx a sm (cx_employees cx ! i))
             (\<lambda>r. Inr (cx_employees cx ! i, r)) = Inr r"
      by (auto simp: list_all2_conv_all_nth)
    then obtain e' where e': "e' \<in> set (cx_employees cx)"
      and r: "ebind (employee_metrics cx a sm e') (\<lambda>r. Inr (e', r)) = Inr r"
      using nth_mem by blast
    from employee_metrics_sum[OF sm e', of a] r show ?thesis
      using e' by (auto simp: ebind_def)
  qed
  from traverse_Inr_mem[OF rs e] have "e \<in> fst ` set rs"
    by (force simp: ebind_Inr_iff)
  with map_of_fold_dict_set[of rs "\<lambda>r. fst (snd r)" "counted_minutes cx a" "[]" e] each
  have "map_of (fold (\<lambda>r m. dict_set (fst r) (fst (snd r)) m) rs []) e = Some (counted_minutes cx a e)"
    by simp
  with res show ?thesis by simp
qed

lemma counted_eq_claimed:
  assumes "at_most_once cx a e"
  shows "counted_minutes cx a e = claimed_minutes cx a e"
proof -
  have "map (\<lambda>ds. if works_value cx a e (fst ds) (snd ds) \<noteq> 0 then minutes_of cx (snd ds) else 0) ps
      = map (\<lambda>ds. minutes_of cx (snd ds) * works_value cx a e (fst ds) (snd ds)) ps"
    if "list_all (\<lambda>ds. works_value cx a e (fst ds) (snd ds) = 0 \<or> works_value cx a e (fst ds) (snd ds) = 1) ps"
    for ps
    using that by (induction ps) auto
  from this[of "day_shift_pairs cx"] assms
  have "map (\<lambda>ds. if works_value cx a e (fst ds) (snd ds) \<noteq> 0 then minutes_of cx (snd ds) else 0)
          (day_shift_pairs cx)
      = map (\<lambda>ds. minutes_of cx (snd ds) * works_value cx a e (fst ds) (snd ds)) (day_shift_pairs cx)"
    unfolding at_most_once_def by blast
  then show ?thesis
    by (simp only: counted_minutes_def claimed_minutes_def)
qed

text \<open>
  C4 (amended): after a successful solve, \<open>metrics.minutes_worked[e]\<close> of every employee
  of the sets is the sum, over the day indices and work shifts whose \<open>works_shift\<close> value
  under the returned solution is not zero, of the minutes of the shift, each counted
  once. It equals the sum of minutes times \<open>works_shift\<close> whenever every \<open>works_shift\<close>
  value of the employee is 0 or 1.
\<close>

theorem minutes_worked_counts_once:
  assumes ok: "snd (compile_and_solve backend spec max_time workers) = Inr (Res_ok obj sch mt)"
    and e: "e \<in> set (s_employees (sp_sets spec))"
  shows "\<exists>m a. compiled_model spec = Inr m \<and> backend max_time workers m = Solution a obj
           \<and> map_of (mt_minutes_worked mt) e = Some (counted_minutes (make_ctx spec) a e)
           \<and> (at_most_once (make_ctx spec) a e \<longrightarrow>
                map_of (mt_minutes_worked mt) e = Some (claimed_minutes (make_ctx spec) a e))"
proof -
  from ok obtain m where m: "compile_model (make_ctx spec) (get_or (sp_constraints spec) []) = Inr m"
    and r: "(case backend max_time workers m of No_solution \<Rightarrow> Inr Res_no_solution
             | Solution a obj \<Rightarrow> materialize (make_ctx spec) a obj) = Inr (Res_ok obj sch mt)"
    by (auto simp: compile_and_solve_def ebind_Inr_iff split: if_splits)
  from r obtain a obj' where b: "backend max_time workers m = Solution a obj'"
    and mat: "materialize (make_ctx spec) a obj' = Inr (Res_ok obj sch mt)"
    by (cases "backend max_time workers m") auto
  have e': "e \<in> set (cx_employees (make_ctx spec))" using e by (simp add: make_ctx_def)
  from materialize_minutes[OF mat e'] have o: "obj' = obj"
    and mw: "map_of (mt_minutes_worked mt) e = Some (counted_minutes (make_ctx spec) a e)"
    by auto
  show ?thesis
    using m b mw counted_eq_claimed[of "make_ctx spec" a e]
    by (auto simp: compiled_model_def o)
qed

lemma two_site_ctx: "make_ctx two_site_spec =
  \<lparr>cx_spec = two_site_spec, cx_employees = [''P1''], cx_days = [''D1''],
   cx_sites = [''A'', ''B''],
   cx_shift_defs = [(''OFF'', default_off),
        (''M'', \<lparr>sd_start = Some ''08:00'', sd_end = Some ''16:00'', sd_minutes = Some 480,
                 sd_is_work = None\<rparr>)],
   cx_work_shifts = [''M''], cx_demand = []\<rparr>"
  by (simp add: make_ctx_def two_site_spec_def local_shift_defs_def is_work_shift_def get_or_def
      default_off_def spec_after_def)

lemma two_site_model: "compiled_model two_site_spec =
  Inr \<lparr>m_vars = [(Off ''P1'' 0, 0, 1), (X ''P1'' 0 ''M'' ''A'', 0, 1), (X ''P1'' 0 ''M'' ''B'', 0, 1)],
       m_rows = [], m_objective = lconst 0\<rparr>"
proof -
  have c: "sp_constraints two_site_spec = None" by (simp add: two_site_spec_def)
  show ?thesis
    unfolding compiled_model_def c
    by (simp add: compile_model_def get_or_def ebind_def merge_emitted_def)
       (simp add: two_site_ctx declared_vars_def)
qed

lemma two_site_materialize:
  "materialize (make_ctx two_site_spec) all_ones 0 =
     Inr (Res_ok 0
        [(''D1'', \<lparr>ds_sites = [(''A'', [(''M'', [''P1''])]), (''B'', [(''M'', [''P1''])])],
                   ds_off = [''P1'']\<rparr>)]
        \<lparr>mt_minutes_worked = [(''P1'', 480)], mt_shift_counts = [(''P1'', [(''M'', 1)])]\<rparr>)"
  unfolding two_site_ctx
  by (simp add: materialize_def ebind_def subscript_def get_or_def enumerate_eq_zip empty_day_def
      fill_day_def shift_minutes_def employee_metrics_def day_shift_pairs_def works_shift_def x_get_def)

text \<open>
  C4 as stated fails when a solution assigns the same shift at two sites: the value of
  \<open>works_shift\<close> is 2, minutes times \<open>works_shift\<close> is 960, and the metrics report 480.
\<close>

theorem minutes_two_sites_counterexample:
  "feasible_for two_site_spec all_ones
   \<and> snd (compile_and_solve eager_backend two_site_spec () 8) =
       Inr (Res_ok 0
        [(''D1'', \<lparr>ds_sites = [(''A'', [(''M'', [''P1''])]), (''B'', [(''M'', [''P1''])])],
                   ds_off = [''P1'']\<rparr>)]
        \<lparr>mt_minutes_worked = [(''P1'', 480)], mt_shift_counts = [(''P1'', [(''M'', 1)])]\<rparr>)
   \<and> works_value (make_ctx two_site_spec) all_ones ''P1'' 0 ''M'' = 2
   \<and> minutes_of (make_ctx two_site_spec) ''M'' = 480
   \<and> claimed_minutes (make_ctx two_site_spec) all_ones ''P1'' = 960"
proof -
  have f: "feasible \<lparr>m_vars = [(Off ''P1'' 0, 0, 1), (X ''P1'' 0 ''M'' ''A'', 0, 1), (X ''P1'' 0 ''M'' ''B'', 0, 1)],
       m_rows = [], m_objective = lconst 0\<rparr> all_ones"
    by (simp add: feasible_def in_bounds_def)
  have s: "''OFF'' \<in> set (s_shifts (sp_sets two_site_spec))"
    "get_or (sp_constraints two_site_spec) [] = []"
    by (simp_all add: two_site_spec_def get_or_def)
  have m: "compile_model (make_ctx two_site_spec) [] =
     Inr \<lparr>m_vars = [(Off ''P1'' 0, 0, 1), (X ''P1'' 0 ''M'' ''A'', 0, 1), (X ''P1'' 0 ''M'' ''B'', 0, 1)],
       m_rows = [], m_objective = lconst 0\<rparr>"
    using two_site_model by (simp add: compiled_model_def s)
  have r: "snd (compile_and_solve eager_backend two_site_spec () 8) =
       Inr (Res_ok 0
        [(''D1'', \<lparr>ds_sites = [(''A'', [(''M'', [''P1''])]), (''B'', [(''M'', [''P1''])])],
                   ds_off = [''P1'']\<rparr>)]
        \<lparr>mt_minutes_worked = [(''P1'', 480)], mt_shift_counts = [(''P1'', [(''M'', 1)])]\<rparr>)"
    by (simp add: compile_and_solve_def s m ebind_def eager_backend_def f two_site_materialize)
  have w: "works_value (make_ctx two_site_spec) all_ones ''P1'' 0 ''M'' = 2"
    "minutes_of (make_ctx two_site_spec) ''M'' = 480"
    "claimed_minutes (make_ctx two_site_spec) all_ones ''P1'' = 960"
    unfolding two_site_ctx
    by (simp_all add: works_value_def minutes_of_def claimed_minutes_def day_shift_pairs_def get_or_def)
  show ?thesis
    using r w by (simp add: feasible_for_def two_site_model f)
qed

theorem minutes_worked_counts_once_witness:
  "snd (compile_and_solve eager_backend (forbid_spec [''D1'']) () 8) =
        Inr (Res_ok 0
          [(''D1'', \<lparr>ds_sites = [(''SITE_DEFAULT'', [(''M'', [''P1''])])], ds_off = [''P1'']\<rparr>)]
          \<lparr>mt_minutes_worked = [(''P1'', 480)], mt_shift_counts = [(''P1'', [(''M'', 1)])]\<rparr>)
   \<and> ''P1'' \<in> set (s_employees (sp_sets (forbid_spec [''D1''])))
   \<and> at_most_once (make_ctx (forbid_spec [''D1''])) all_ones ''P1''
   \<and> map_of [(''P1'', 480)] ''P1'' = Some (claimed_minutes (make_ctx (forbid_spec [''D1''])) all_ones ''P1'')
   \<and> counted_minutes (make_ctx (forbid_spec [''D1''])) all_ones ''P1'' = 480"
proof -
  let ?sp = "forbid_spec [''D1'']"
  have s: "''OFF'' \<in> set (s_shifts (sp_sets ?sp))"
    "get_or (sp_constraints ?sp) [] = [forbid_off]"
    "\<not> unsupported_kind forbid_off"
    by (simp_all add: forbid_spec_def get_or_def unsupported_kind_def forbid_off_def ALLOWED_KINDS_def)
  have mm: "compile_model (make_ctx ?sp) [forbid_off] =
        Inr \<lparr>m_vars = [(Off ''P1'' 0, 0, 1), (X ''P1'' 0 ''M'' ''SITE_DEFAULT'', 0, 1)],
             m_rows = [], m_objective = lconst 0\<rparr>"
    using one_day_model by (simp add: compiled_model_def s)
  have f: "feasible \<lparr>m_vars = [(Off ''P1'' 0, 0, 1), (X ''P1'' 0 ''M'' ''SITE_DEFAULT'', 0, 1)],
             m_rows = [], m_objective = lconst 0\<rparr> all_ones"
    by (simp add: feasible_def in_bounds_def)
  have ok: "snd (compile_and_solve eager_backend ?sp () 8) =
        Inr (Res_ok 0
          [(''D1'', \<lparr>ds_sites = [(''SITE_DEFAULT'', [(''M'', [''P1''])])], ds_off = [''P1'']\<rparr>)]
          \<lparr>mt_minutes_worked = [(''P1'', 480)], mt_shift_counts = [(''P1'', [(''M'', 1)])]\<rparr>)"
    by (simp add: compile_and_solve_def s mm ebind_def eager_backend_def f one_day_materialize)
  have e: "''P1'' \<in> set (s_employees (sp_sets ?sp))" by (simp add: forbid_spec_def)
  have amo: "at_most_once (make_ctx ?sp) all_ones ''P1''"
    unfolding forbid_ctx by (simp add: at_most_once_def day_shift_pairs_def works_value_def)
  from minutes_worked_counts_once[OF ok e] obtain m a where
    m: "compiled_model ?sp = Inr m" and b: "eager_backend () 8 m = Solution a 0"
    and c: "map_of (mt_minutes_worked \<lparr>mt_minutes_worked = [(''P1'', 480)],
                 mt_shift_counts = [(''P1'', [(''M'', 1)])]\<rparr>) ''P1''
              = Some (counted_minutes (make_ctx ?sp) a ''P1'')"
    and d: "at_most_once (make_ctx ?sp) a ''P1'' \<longrightarrow>
       map_of (mt_minutes_worked \<lparr>mt_minutes_worked = [(''P1'', 480)],
                 mt_shift_counts = [(''P1'', [(''M'', 1)])]\<rparr>) ''P1''
              = Some (claimed_minutes (make_ctx ?sp) a ''P1'')"
    by blast
  from m one_day_model have "m = \<lparr>m_vars = [(Off ''P1'' 0, 0, 1), (X ''P1'' 0 ''M'' ''SITE_DEFAULT'', 0, 1)],
             m_rows = [], m_objective = lconst 0\<rparr>" by simp
  with b f have a: "a = all_ones" by (simp add: eager_backend_def)
  from c d amo show ?thesis using ok e by (simp add: a)
qed

end
